theory Spec2Isabelle
  imports Main "HOL-Library.Sublist"
begin

section \<open>Data model\<close>

text \<open>
  The service \<open>TransactionService\<close> (app/modules/transactions/services.py) works on
  pydantic request objects and on rows of the tables \<open>Product\<close>, \<open>Provider\<close> and
  \<open>Transaction\<close>. Python integers are unbounded, so ids, quantities and inventories are
  \<open>int\<close>.
\<close>

text \<open>
  A line item of a request (\<open>TransactionProductsData\<close>) is a mutable object: the normalizer
  writes to its \<open>quantity\<close> attribute. Line items therefore live in a store and the lists of
  the program hold references to them.
\<close>

record TransactionProductsData =
  product_id :: int
  quantity :: int

type_synonym ref = nat

type_synonym heap = "ref \<Rightarrow> TransactionProductsData"

text \<open>
  The exceptions the service raises. Where the source passes \<open>str(ids)\<close> of a list of
  product ids as the exception's argument, the constructor carries the list that is printed;
  the fixed messages are kept as strings. \<open>AttributeError\<close> and \<open>IndexError\<close> are the
  Python run-time errors of an attribute read on \<open>None\<close> and of \<open>xs[-1]\<close> on an empty list;
  \<open>StorageError\<close> stands for any exception of the database layer and \<open>ResponseError\<close>
  for any exception raised while the response is built from the stored record.
\<close>

datatype exn_arg = Message string | IdsText "int list"

datatype error =
    ItensNotFound exn_arg
  | InvalidPageItemsNumber
  | InvalidStockQuantity "int list"
  | NotEnoughStockQuantity "int list"
  | ProductsNotFound string
  | ProviderNotFound string
  | InvalidRangeTime
  | InvalidPage
  | AttributeError
  | IndexError
  | StorageError
  | ResponseError

datatype TransactionTypeEnum = incoming | outgoing

text \<open>
  Modelled from the spec: the rows of the tables (the model classes \<open>Product\<close>,
  \<open>Provider\<close>, \<open>Transaction\<close> and \<open>TransactionProduct\<close> are not among the sources).
  Only the columns the service reads or writes are kept: a product's \<open>size\<close>, \<open>weight\<close>
  and timestamps are never touched by it. \<open>Product.id\<close>, \<open>Provider.id\<close> and
  \<open>Transaction.id\<close> are primary keys; the line items of a transaction
  (\<open>Transaction.products_transaction\<close>) are kept inside its row.
\<close>

record Product =
  prod_id :: int
  prod_name :: string
  inventory :: int

record Provider =
  prov_id :: int
  prov_name :: string

record TransactionProduct =
  tp_product_id :: int
  tp_quantity :: int

record Transaction =
  tx_id :: int
  tx_type :: TransactionTypeEnum
  tx_description :: "string option"
  tx_date :: int
  tx_provider_id :: "int option"
  tx_created_by :: int
  products_transaction :: "TransactionProduct list"

record database =
  providers :: "Provider list"
  products :: "Product list"
  transactions :: "Transaction list"

text \<open>
  Modelled from the spec: the create request (the schemas \<open>IncomingTransactionCreate\<close> and
  \<open>OutgoingTransactionCreate\<close> are not among the sources); its \<open>products\<close> are references
  to line-item objects. Dates are day numbers.
\<close>

record TransactionCreate =
  req_type :: TransactionTypeEnum
  req_provider_id :: "int option"
  req_description :: "string option"
  req_date :: int
  req_products :: "ref list"

text \<open>
  A date argument of the query functions is a \<open>date\<close>, \<open>None\<close> (the default of
  \<open>fetch_all\<close> and \<open>fetch_all_with_pagination\<close>) or the empty string (the default of
  \<open>_make_transaction_query_with_filters\<close>).
\<close>

datatype date_arg = PyNone | EmptyStr | PyDate int

text \<open>
  Where a step of \<open>create\<close> outside its own validation raises, if any does: the insert of
  the transaction, the update of the inventories, or the building of the response.
\<close>

datatype fault = NoFault | InsertFails | UpdateFails | ResponseFails

section \<open>Line-item normalizer\<close>

text \<open>
  \<open>_sort_by_id_check_and_sum_duplicates\<close>: the payload is sorted by \<open>product_id\<close> (Python's
  \<open>sorted\<close> is stable, as \<open>sort_key\<close> is), then one pass keeps the first object of every
  product id and adds the quantity of each later object with an id already seen to the
  object last kept, \<open>checked_payload[-1].quantity += value.quantity\<close>, in place.
\<close>

fun sum_duplicates_loop ::
  "heap \<Rightarrow> int list \<Rightarrow> ref list \<Rightarrow> ref list \<Rightarrow> error + (heap \<times> ref list)" where
  "sum_duplicates_loop h already_added checked_payload [] = Inr (h, checked_payload)"
| "sum_duplicates_loop h already_added checked_payload (v # vs) =
     (if product_id (h v) \<notin> set already_added
      then sum_duplicates_loop h (already_added @ [product_id (h v)]) (checked_payload @ [v]) vs
      else (case checked_payload of
              [] \<Rightarrow> Inl IndexError
            | _ # _ \<Rightarrow>
                let l = last checked_payload;
                    h' = h(l := (h l)\<lparr>quantity := quantity (h l) + quantity (h v)\<rparr>)
                in sum_duplicates_loop h' already_added checked_payload vs))"

definition sort_by_id_check_and_sum_duplicates ::
  "heap \<Rightarrow> ref list \<Rightarrow> error + (heap \<times> ref list)" where
  "sort_by_id_check_and_sum_duplicates h payload =
     sum_duplicates_loop h [] [] (sort_key (\<lambda>v. product_id (h v)) payload)"

text \<open>Views used to state properties: the product ids of a list of references, and the
  total quantity requested for one product in a list of references.\<close>

definition pids :: "heap \<Rightarrow> ref list \<Rightarrow> int list" where
  "pids h vs = map (\<lambda>v. product_id (h v)) vs"

definition items :: "heap \<Rightarrow> ref list \<Rightarrow> (int \<times> int) list" where
  "items h vs = map (\<lambda>v. (product_id (h v), quantity (h v))) vs"

definition total_quantity :: "heap \<Rightarrow> ref list \<Rightarrow> int \<Rightarrow> int" where
  "total_quantity h vs p =
     sum_list (map (\<lambda>v. quantity (h v)) (filter (\<lambda>v. product_id (h v) = p) vs))"

text \<open>A store holding one fresh object per pair of a list: reference \<open>i\<close> is the
  \<open>i\<close>-th line item.\<close>

definition alloc :: "(int \<times> int) list \<Rightarrow> heap" where
  "alloc xs = (\<lambda>r. if r < length xs then \<lparr>product_id = fst (xs ! r), quantity = snd (xs ! r)\<rparr>
                    else \<lparr>product_id = 0, quantity = 0\<rparr>)"

section \<open>Validation\<close>

text \<open>
  \<open>_check_provider_existence\<close>. In \<open>raise ProviderNotFound(provider.name)\<close> the argument
  \<open>provider.name\<close> is evaluated before the exception is built, and it is evaluated only
  where \<open>provider\<close> is \<open>None\<close>.
\<close>

definition getattr_name :: "Provider option \<Rightarrow> error + string" where
  "getattr_name provider =
     (case provider of None \<Rightarrow> Inl AttributeError | Some p \<Rightarrow> Inr (prov_name p))"

definition check_provider_existence :: "database \<Rightarrow> int option \<Rightarrow> error + unit" where
  "check_provider_existence db provider_id =
     (case provider_id of
        None \<Rightarrow> Inr ()
      | Some i \<Rightarrow>
          let provider = find (\<lambda>p. prov_id p = i) (providers db)
          in if provider = None
             then (case getattr_name provider of
                     Inl e \<Rightarrow> Inl e
                   | Inr n \<Rightarrow> Inl (ProviderNotFound n))
             else Inr ())"

text \<open>\<open>_check_if_products_payload_is_greater_than_zero\<close> and its mirror.\<close>

definition check_if_products_payload_is_greater_than_zero ::
  "heap \<Rightarrow> ref list \<Rightarrow> error + int list" where
  "check_if_products_payload_is_greater_than_zero h payload =
     (let (products_ids, invalid_stock_ids) =
            fold (\<lambda>v (products_ids, invalid_stock_ids).
                    (products_ids @ [product_id (h v)],
                     if quantity (h v) \<le> 0 then invalid_stock_ids @ [product_id (h v)]
                     else invalid_stock_ids))
              payload ([], [])
      in if length invalid_stock_ids > 0 then Inl (InvalidStockQuantity invalid_stock_ids)
         else Inr products_ids)"

definition check_if_products_payload_is_less_than_zero ::
  "heap \<Rightarrow> ref list \<Rightarrow> error + int list" where
  "check_if_products_payload_is_less_than_zero h payload =
     (let (products_ids, invalid_stock_ids) =
            fold (\<lambda>v (products_ids, invalid_stock_ids).
                    (products_ids @ [product_id (h v)],
                     if quantity (h v) \<ge> 0 then invalid_stock_ids @ [product_id (h v)]
                     else invalid_stock_ids))
              payload ([], [])
      in if length invalid_stock_ids > 0 then Inl (InvalidStockQuantity invalid_stock_ids)
         else Inr products_ids)"

text \<open>\<open>_check_if_stock_has_enough_outgoing_quantity\<close>: products and line items are paired
  by position (\<open>zip\<close>).\<close>

definition check_if_stock_has_enough_outgoing_quantity ::
  "heap \<Rightarrow> Product list \<Rightarrow> ref list \<Rightarrow> error + unit" where
  "check_if_stock_has_enough_outgoing_quantity h products_found products_payload =
     (let invalid_stock_ids =
            fold (\<lambda>(p_found, p_payload) invalid_stock_ids.
                    if quantity (h p_payload) > inventory p_found
                    then invalid_stock_ids @ [prod_id p_found] else invalid_stock_ids)
              (zip products_found products_payload) []
      in if length invalid_stock_ids > 0 then Inl (NotEnoughStockQuantity invalid_stock_ids)
         else Inr ())"

text \<open>
  \<open>_get_products_from_database\<close>: one query (\<open>query_products\<close>) for the rows whose id is
  requested, ordered by id. When the sizes differ, every id found is removed from the requested list
  (\<open>list.remove\<close> drops the first occurrence) and what is left is the error's payload.
\<close>

definition query_products :: "database \<Rightarrow> int list \<Rightarrow> Product list" where
  "query_products db ids = sort_key prod_id (filter (\<lambda>p. prod_id p \<in> set ids) (products db))"

definition get_products_from_database :: "database \<Rightarrow> int list \<Rightarrow> error + Product list" where
  "get_products_from_database db payload_products_id =
     (let products_found = query_products db payload_products_id
      in if length products_found = length payload_products_id then Inr products_found
         else Inl (ItensNotFound (IdsText
                (fold (\<lambda>p_found l. if prod_id p_found \<in> set l then remove1 (prod_id p_found) l else l)
                   products_found payload_products_id))))"

section \<open>Writing\<close>

text \<open>\<open>Session.bulk_update_mappings(Product, dicts)\<close>: one UPDATE by primary key for every
  mapping, in order.\<close>

definition bulk_update_mappings :: "Product list \<Rightarrow> Product list \<Rightarrow> Product list" where
  "bulk_update_mappings rows dicts =
     fold (\<lambda>d rs. map (\<lambda>r. if prod_id r = prod_id d then d else r) rs) dicts rows"

text \<open>
  \<open>_update_products_inventory\<close> and \<open>_update_products_inventory_outgoing\<close>: the new
  inventories are computed pairwise, written with \<open>bulk_update_mappings\<close> and committed. A
  failure of the storage layer leaves the committed tables as they were.
  \<open>inventory_of\<close> reads the inventory of the product with a given id.
\<close>

definition inventory_of :: "database \<Rightarrow> int \<Rightarrow> int option" where
  "inventory_of db i = map_option inventory (find (\<lambda>p. prod_id p = i) (products db))"

definition update_products_inventory ::
  "fault \<Rightarrow> database \<Rightarrow> heap \<Rightarrow> Product list \<Rightarrow> ref list \<Rightarrow> error + database" where
  "update_products_inventory f db h products_found products_payload =
     (let dict_products =
            fold (\<lambda>(p_found, p_payload) dict_products.
                    dict_products @ [p_found\<lparr>inventory := inventory p_found + quantity (h p_payload)\<rparr>])
              (zip products_found products_payload) []
      in if f = UpdateFails then Inl StorageError
         else Inr (db\<lparr>products := bulk_update_mappings (products db) dict_products\<rparr>))"

definition update_products_inventory_outgoing ::
  "fault \<Rightarrow> database \<Rightarrow> heap \<Rightarrow> Product list \<Rightarrow> ref list \<Rightarrow> error + database" where
  "update_products_inventory_outgoing f db h products_found products_payload =
     (let dict_products =
            fold (\<lambda>(p_found, p_payload) dict_products.
                    dict_products @ [p_found\<lparr>inventory := inventory p_found - quantity (h p_payload)\<rparr>])
              (zip products_found products_payload) []
      in if f = UpdateFails then Inl StorageError
         else Inr (db\<lparr>products := bulk_update_mappings (products db) dict_products\<rparr>))"

text \<open>The id a new row of the table of transactions gets: one more than the largest in use.\<close>

definition next_transaction_id :: "database \<Rightarrow> int" where
  "next_transaction_id db = fold max (map tx_id (transactions db)) 0 + 1"

text \<open>
  Modelled from the spec: \<open>Transaction.insert\<close> (app/modules/transactions/models.py is not
  among the sources). The spec's design notes say that the transaction record, with its
  line items, is committed by the insert, before and apart from the inventory update. A
  failure of the storage layer leaves the committed tables as they were.
\<close>

definition insert_transaction ::
  "fault \<Rightarrow> database \<Rightarrow> Transaction \<Rightarrow> error + (database \<times> Transaction)" where
  "insert_transaction f db t =
     (if f = InsertFails then Inl StorageError
      else let t' = t\<lparr>tx_id := next_transaction_id db\<rparr>
           in Inr (db\<lparr>transactions := transactions db @ [t']\<rparr>, t'))"

text \<open>
  Modelled from the spec: \<open>TransactionResponse.from_orm\<close> (the schema is not among the
  sources), the last statement of \<open>create\<close>. It serializes the stored record and writes
  nothing; it runs after both commits and, reading the record, it can raise.
\<close>

definition from_orm :: "fault \<Rightarrow> Transaction \<Rightarrow> error + Transaction" where
  "from_orm f t = (if f = ResponseFails then Inl ResponseError else Inr t)"

text \<open>
  \<open>create\<close>. The result is the committed tables and the store of line items as the call
  leaves them, with the exception raised or the response returned. Nothing in \<open>create\<close>
  catches an exception or rolls a commit back.
\<close>

definition create ::
  "fault \<Rightarrow> database \<Rightarrow> heap \<Rightarrow> int \<Rightarrow> TransactionCreate
     \<Rightarrow> (database \<times> heap) \<times> (error + Transaction)" where
  "create f db h user_id transaction =
     (if length (req_products transaction) = 0
      then ((db, h), Inl (ProductsNotFound ''Empty transaction products''))
      else case req_type transaction of
        incoming \<Rightarrow>
          (case check_provider_existence db (req_provider_id transaction) of
             Inl e \<Rightarrow> ((db, h), Inl e)
           | Inr _ \<Rightarrow>
          (case sort_by_id_check_and_sum_duplicates h (req_products transaction) of
             Inl e \<Rightarrow> ((db, h), Inl e)
           | Inr (h', checked_products) \<Rightarrow>
          (case check_if_products_payload_is_greater_than_zero h' checked_products of
             Inl e \<Rightarrow> ((db, h'), Inl e)
           | Inr products_ids \<Rightarrow>
          (case get_products_from_database db products_ids of
             Inl e \<Rightarrow> ((db, h'), Inl e)
           | Inr products_to_update \<Rightarrow>
          (let transaction_create =
                 \<lparr>tx_id = 0, tx_type = incoming,
                  tx_description = req_description transaction,
                  tx_date = req_date transaction,
                  tx_provider_id = req_provider_id transaction,
                  tx_created_by = user_id,
                  products_transaction = map (\<lambda>product.
                     \<lparr>tp_product_id = product_id (h' product),
                      tp_quantity = quantity (h' product)\<rparr>) checked_products\<rparr>
           in case insert_transaction f db transaction_create of
             Inl e \<Rightarrow> ((db, h'), Inl e)
           | Inr (db1, created) \<Rightarrow>
          (case update_products_inventory f db1 h' products_to_update checked_products of
             Inl e \<Rightarrow> ((db1, h'), Inl e)
           | Inr db2 \<Rightarrow> ((db2, h'), from_orm f created)))))))
      | outgoing \<Rightarrow>
          (case sort_by_id_check_and_sum_duplicates h (req_products transaction) of
             Inl e \<Rightarrow> ((db, h), Inl e)
           | Inr (h', checked_products) \<Rightarrow>
          (case check_if_products_payload_is_greater_than_zero h' checked_products of
             Inl e \<Rightarrow> ((db, h'), Inl e)
           | Inr products_ids \<Rightarrow>
          (case get_products_from_database db products_ids of
             Inl e \<Rightarrow> ((db, h'), Inl e)
           | Inr products_to_update \<Rightarrow>
          (case check_if_stock_has_enough_outgoing_quantity h' products_to_update checked_products of
             Inl e \<Rightarrow> ((db, h'), Inl e)
           | Inr _ \<Rightarrow>
          (let transaction_create =
                 \<lparr>tx_id = 0, tx_type = outgoing,
                  tx_description = req_description transaction,
                  tx_date = req_date transaction,
                  tx_provider_id = None,
                  tx_created_by = user_id,
                  products_transaction = map (\<lambda>product.
                     \<lparr>tp_product_id = product_id (h' product),
                      tp_quantity = quantity (h' product)\<rparr>) checked_products\<rparr>
           in case insert_transaction f db transaction_create of
             Inl e \<Rightarrow> ((db, h'), Inl e)
           | Inr (db1, created) \<Rightarrow>
          (case update_products_inventory_outgoing f db1 h' products_to_update checked_products of
             Inl e \<Rightarrow> ((db1, h'), Inl e)
           | Inr db2 \<Rightarrow> ((db2, h'), from_orm f created))))))))"

section \<open>Transaction queries\<close>

text \<open>
  \<open>func.lower(column).contains(text.lower(), autoescape=True)\<close>: the lower-cased text occurs
  in the lower-cased column as a contiguous run. Strings are byte strings here and
  \<open>lower\<close> acts on the ASCII letters. A NULL column matches nothing.
\<close>

definition lower_char :: "char \<Rightarrow> char" where
  "lower_char c = (let n = (of_char c :: nat) in if 65 \<le> n \<and> n \<le> 90 then char_of (n + 32) else c)"

definition lower :: "string \<Rightarrow> string" where
  "lower s = map lower_char s"

definition lower_contains :: "string \<Rightarrow> string \<Rightarrow> bool" where
  "lower_contains column text = sublist (lower text) (lower column)"

fun is_date :: "date_arg \<Rightarrow> bool" where
  "is_date (PyDate d) = True"
| "is_date _ = False"

fun the_date :: "date_arg \<Rightarrow> int" where
  "the_date (PyDate d) = d"
| "the_date _ = 0"

text \<open>
  \<open>_make_transaction_query_with_filters\<close>. A query is the condition its rows satisfy; the
  filters are added in the order of the source. \<open>the_date\<close> is read only where
  \<open>type(x) == date\<close> holds. The transaction type filter is skipped at the empty string,
  which is \<open>None\<close> here. The join with \<open>Transaction.provider\<close> is an inner join: it keeps
  the transactions that have a provider row.
\<close>

definition make_transaction_query_with_filters ::
  "database \<Rightarrow> string \<Rightarrow> string \<Rightarrow> string \<Rightarrow> TransactionTypeEnum option
     \<Rightarrow> date_arg \<Rightarrow> date_arg \<Rightarrow> error + (Transaction \<Rightarrow> bool)" where
  "make_transaction_query_with_filters db product_name provider_name description transaction_type
       start_date finish_date =
     (if is_date start_date \<and> is_date finish_date \<and> the_date start_date > the_date finish_date
      then Inl InvalidRangeTime
      else
        let by_date =
              (if is_date start_date \<and> is_date finish_date
               then (\<lambda>t. tx_date t \<ge> the_date start_date \<and> tx_date t \<le> the_date finish_date)
               else if is_date start_date \<and> finish_date = EmptyStr
               then (\<lambda>t. tx_date t \<ge> the_date start_date)
               else if is_date finish_date \<and> start_date = EmptyStr
               then (\<lambda>t. tx_date t \<le> the_date finish_date)
               else (\<lambda>t. True));
            by_provider =
              (if provider_name \<noteq> []
               then (\<lambda>t. list_ex (\<lambda>p. tx_provider_id t = Some (prov_id p)
                                    \<and> lower_contains (prov_name p) provider_name) (providers db))
               else (\<lambda>t. True));
            by_description =
              (if description \<noteq> []
               then (\<lambda>t. case tx_description t of None \<Rightarrow> False
                                | Some d \<Rightarrow> lower_contains d description)
               else (\<lambda>t. True));
            by_type =
              (case transaction_type of None \<Rightarrow> (\<lambda>t. True)
               | Some ty \<Rightarrow> (\<lambda>t. tx_type t = ty));
            by_product =
              (if product_name \<noteq> []
               then (let ids = concat (map (\<lambda>t. map (\<lambda>tp. tx_id t)
                            (filter (\<lambda>tp. list_ex (\<lambda>p. prod_id p = tp_product_id tp
                                          \<and> lower_contains (prod_name p) product_name) (products db))
                               (products_transaction t))) (transactions db))
                     in (\<lambda>t. tx_id t \<in> set ids))
               else (\<lambda>t. True))
        in Inr (\<lambda>t. by_date t \<and> by_provider t \<and> by_description t \<and> by_type t \<and> by_product t))"

text \<open>\<open>query.order_by(Transaction.id).all()\<close>.\<close>

definition all_ordered :: "database \<Rightarrow> (Transaction \<Rightarrow> bool) \<Rightarrow> Transaction list" where
  "all_ordered db query = sort_key tx_id (filter query (transactions db))"

definition fetch_all ::
  "database \<Rightarrow> string \<Rightarrow> string \<Rightarrow> string \<Rightarrow> TransactionTypeEnum option
     \<Rightarrow> date_arg \<Rightarrow> date_arg \<Rightarrow> error + Transaction list" where
  "fetch_all db product_name provider_name description transaction_type start_date finish_date =
     (case make_transaction_query_with_filters db product_name provider_name description
             transaction_type start_date finish_date of
        Inl e \<Rightarrow> Inl e
      | Inr query \<Rightarrow>
          let found = all_ordered db query
          in if length found = 0 then Inl (ItensNotFound (Message ''No transactions found''))
             else Inr found)"

text \<open>
  \<open>apply_pagination\<close> of the library sqlalchemy_filters: it counts the rows, limits the query
  to the page size, lowers the page size to the count when that is positive and smaller,
  skips \<open>(page_number - 1) * page_size\<close> rows, and reports the number of pages, the ceiling of
  count over page size and 0 for a page size of 0.
\<close>

record Pagination =
  page_number :: int
  page_size :: int
  num_pages :: int
  total_results :: int

definition calculate_total_pages :: "int \<Rightarrow> int \<Rightarrow> int" where
  "calculate_total_pages psize count =
     (if psize = 0 then 0 else (count + psize - 1) div psize)"

definition apply_pagination ::
  "Transaction list \<Rightarrow> int \<Rightarrow> int \<Rightarrow> error + (Transaction list \<times> Pagination)" where
  "apply_pagination rows page per_page =
     (let count = int (length rows) in
      if per_page < 0 then Inl InvalidPage
      else
        let psize = (if per_page > count \<and> count > 0 then count else per_page) in
        if page < 1 then Inl InvalidPage
        else Inr (take (nat per_page) (drop (nat ((page - 1) * psize)) rows),
                  \<lparr>page_number = page, page_size = psize,
                   num_pages = calculate_total_pages psize count, total_results = count\<rparr>))"

text \<open>
  Modelled from the spec: the response of the paginated retrieval
  (\<open>make_pagination_metadata\<close> of app/utils/pagination.py is not among the sources): the
  pagination metadata are the current page, the total pages, the page size and the total
  items; then the page's records.
\<close>

record TransactionsResponse =
  pagination_metadata :: "int \<times> int \<times> int \<times> int"
  records :: "Transaction list"

definition fetch_all_with_pagination ::
  "database \<Rightarrow> int \<Rightarrow> int \<Rightarrow> string \<Rightarrow> string \<Rightarrow> string \<Rightarrow> TransactionTypeEnum option
     \<Rightarrow> date_arg \<Rightarrow> date_arg \<Rightarrow> error + TransactionsResponse" where
  "fetch_all_with_pagination db page per_page product_name provider_name description
       transaction_type start_date finish_date =
     (if page \<le> 0 then Inl InvalidPage
      else if per_page \<le> 0 then Inl InvalidPageItemsNumber
      else case make_transaction_query_with_filters db product_name provider_name description
                  transaction_type start_date finish_date of
        Inl e \<Rightarrow> Inl e
      | Inr query \<Rightarrow>
          (case apply_pagination (all_ordered db query) page per_page of
             Inl e \<Rightarrow> Inl e
           | Inr (found, pagination) \<Rightarrow>
               if page > num_pages pagination \<and> num_pages pagination > 0 then Inl InvalidPage
               else if length found = 0
               then Inl (ItensNotFound (Message ''No transactions found''))
               else Inr \<lparr>pagination_metadata =
                           (page, num_pages pagination, per_page, total_results pagination),
                         records = found\<rparr>))"

section \<open>Example data\<close>

text \<open>Small tables and requests on which the operations are run below.\<close>

definition request :: "TransactionTypeEnum \<Rightarrow> int option \<Rightarrow> ref list \<Rightarrow> TransactionCreate" where
  "request ty provider refs =
     \<lparr>req_type = ty, req_provider_id = provider, req_description = None, req_date = 0,
      req_products = refs\<rparr>"

definition db_stock :: database where
  "db_stock = \<lparr>providers = [\<lparr>prov_id = 1, prov_name = ''acme''\<rparr>],
               products = [\<lparr>prod_id = 1, prod_name = ''shirt'', inventory = 10\<rparr>,
                           \<lparr>prod_id = 2, prod_name = ''cap'', inventory = 4\<rparr>],
               transactions = []\<rparr>"

definition db_empty_shelf :: database where
  "db_empty_shelf = \<lparr>providers = [],
               products = [\<lparr>prod_id = 1, prod_name = ''shirt'', inventory = 0\<rparr>],
               transactions = []\<rparr>"

definition db_no_provider :: database where
  "db_no_provider = \<lparr>providers = [],
               products = [\<lparr>prod_id = 1, prod_name = ''shirt'', inventory = 10\<rparr>],
               transactions = []\<rparr>"

definition db_one_old :: database where
  "db_one_old = \<lparr>providers = [], products = [],
     transactions = [\<lparr>tx_id = 1, tx_type = incoming, tx_description = None, tx_date = 5,
                      tx_provider_id = None, tx_created_by = 1, products_transaction = []\<rparr>]\<rparr>"



definition tx_sale :: Transaction where
  "tx_sale = \<lparr>tx_id = 1, tx_type = outgoing, tx_description = None, tx_date = 0,
                  tx_provider_id = None, tx_created_by = 9,
                  products_transaction = [\<lparr>tp_product_id = 1, tp_quantity = 10\<rparr>,
                                          \<lparr>tp_product_id = 2, tp_quantity = 4\<rparr>]\<rparr>"

definition db_sold_out :: database where
  "db_sold_out = \<lparr>providers = [\<lparr>prov_id = 1, prov_name = ''acme''\<rparr>],
               products = [\<lparr>prod_id = 1, prod_name = ''shirt'', inventory = 0\<rparr>,
                           \<lparr>prod_id = 2, prod_name = ''cap'', inventory = 0\<rparr>],
               transactions = [tx_sale]\<rparr>"

definition tx_single :: Transaction where
  "tx_single = \<lparr>tx_id = 1, tx_type = incoming, tx_description = None, tx_date = 0,
                  tx_provider_id = Some 1, tx_created_by = 9,
                  products_transaction = [\<lparr>tp_product_id = 1, tp_quantity = 5\<rparr>]\<rparr>"

definition db_single_restock :: database where
  "db_single_restock = \<lparr>providers = [\<lparr>prov_id = 1, prov_name = ''acme''\<rparr>],
               products = [\<lparr>prod_id = 1, prod_name = ''shirt'', inventory = 15\<rparr>,
                           \<lparr>prod_id = 2, prod_name = ''cap'', inventory = 4\<rparr>],
               transactions = [tx_single]\<rparr>"

section \<open>The normalizer loop\<close>

lemma product_id_quantity_upd:
  "product_id ((h(l := (h l)\<lparr>quantity := q\<rparr>)) r) = product_id (h r)"
  by simp

lemma pids_quantity_upd: "pids (h(l := (h l)\<lparr>quantity := q\<rparr>)) vs = pids h vs"
  by (simp add: pids_def)

lemma pids_cong: "\<forall>r. product_id (h' r) = product_id (h r) \<Longrightarrow> pids h' vs = pids h vs"
  by (simp add: pids_def)

lemma loop_returns:
  "added = pids h checked \<Longrightarrow>
   \<exists>h' out. sum_duplicates_loop h added checked vs = Inr (h', out)
     \<and> (\<forall>r. product_id (h' r) = product_id (h r))
     \<and> (\<exists>ys. out = checked @ ys \<and> set ys \<subseteq> set vs)
     \<and> (\<forall>r. r \<notin> set out \<longrightarrow> h' r = h r)"
proof (induction vs arbitrary: h added checked)
  case Nil
  then show ?case by simp
next
  case (Cons v vs)
  show ?case
  proof (cases "product_id (h v) \<in> set added")
    case False
    have "added @ [product_id (h v)] = pids h (checked @ [v])"
      using Cons.prems by (simp add: pids_def)
    from Cons.IH[OF this] obtain h' out where
      r: "sum_duplicates_loop h (added @ [product_id (h v)]) (checked @ [v]) vs = Inr (h', out)"
      and p: "\<forall>r. product_id (h' r) = product_id (h r)"
      and o: "\<exists>ys. out = (checked @ [v]) @ ys \<and> set ys \<subseteq> set vs"
      and u: "\<forall>r. r \<notin> set out \<longrightarrow> h' r = h r" by blast
    from o obtain ys where "out = checked @ (v # ys)" "set (v # ys) \<subseteq> set (v # vs)" by auto
    with r p u False show ?thesis by (metis sum_duplicates_loop.simps(2))
  next
    case True
    then obtain c cs where cc: "checked = c # cs"
      using Cons.prems by (cases checked) (auto simp: pids_def)
    define l where "l = last checked"
    define h2 where "h2 = h(l := (h l)\<lparr>quantity := quantity (h l) + quantity (h v)\<rparr>)"
    have lin: "l \<in> set checked" using cc l_def by simp
    have "added = pids h2 checked" using Cons.prems by (simp add: h2_def pids_quantity_upd)
    from Cons.IH[OF this] obtain h' out where
      r: "sum_duplicates_loop h2 added checked vs = Inr (h', out)"
      and p: "\<forall>r. product_id (h' r) = product_id (h2 r)"
      and o: "\<exists>ys. out = checked @ ys \<and> set ys \<subseteq> set vs"
      and u: "\<forall>r. r \<notin> set out \<longrightarrow> h' r = h2 r" by blast
    have r': "sum_duplicates_loop h added checked (v # vs) = Inr (h', out)"
      using True cc r by (simp add: h2_def l_def Let_def)
    have p': "\<forall>r. product_id (h' r) = product_id (h r)" using p by (simp add: h2_def)
    have o': "\<exists>ys. out = checked @ ys \<and> set ys \<subseteq> set (v # vs)" using o by auto
    have u': "\<forall>r. r \<notin> set out \<longrightarrow> h' r = h r"
    proof (intro allI impI)
      fix r assume "r \<notin> set out"
      then have "r \<noteq> l" using o lin by auto
      then show "h' r = h r" using u \<open>r \<notin> set out\<close> by (simp add: h2_def)
    qed
    from r' p' o' u' show ?thesis by blast
  qed
qed


lemma loop_pids:
  "added = pids h checked \<Longrightarrow> sum_duplicates_loop h added checked vs = Inr (h', out) \<Longrightarrow>
   set (pids h out) = set (pids h checked) \<union> set (pids h vs)
   \<and> (distinct (pids h checked) \<longrightarrow> distinct (pids h out))
   \<and> (sorted (pids h (checked @ vs)) \<longrightarrow> sorted (pids h out))"
proof (induction vs arbitrary: h added checked)
  case Nil
  then show ?case by (simp add: pids_def)
next
  case (Cons v vs)
  show ?case
  proof (cases "product_id (h v) \<in> set added")
    case False
    have a: "added @ [product_id (h v)] = pids h (checked @ [v])"
      using Cons.prems by (simp add: pids_def)
    have r: "sum_duplicates_loop h (added @ [product_id (h v)]) (checked @ [v]) vs = Inr (h', out)"
      using Cons.prems False by simp
    from Cons.IH[OF a r] False Cons.prems(1) show ?thesis by (auto simp: pids_def)
  next
    case True
    then obtain c cs where cc: "checked = c # cs"
      using Cons.prems by (cases checked) (auto simp: pids_def)
    define l where "l = last checked"
    define h2 where "h2 = h(l := (h l)\<lparr>quantity := quantity (h l) + quantity (h v)\<rparr>)"
    have a: "added = pids h2 checked" using Cons.prems by (simp add: h2_def pids_quantity_upd)
    have r: "sum_duplicates_loop h2 added checked vs = Inr (h', out)"
      using Cons.prems True cc by (simp add: h2_def l_def Let_def)
    have e: "pids h2 = pids h" by (rule ext) (simp add: h2_def pids_quantity_upd)
    have s: "sorted (pids h (checked @ v # vs)) \<Longrightarrow> sorted (pids h (checked @ vs))"
      by (auto simp: pids_def sorted_append)
    from Cons.IH[OF a r] True Cons.prems(1) s show ?thesis unfolding e by (auto simp: pids_def)
  qed
qed

lemma total_quantity_Cons:
  "total_quantity h (x # xs) p =
     (if product_id (h x) = p then quantity (h x) else 0) + total_quantity h xs p"
  by (simp add: total_quantity_def)

lemma total_quantity_Nil: "total_quantity h [] p = 0"
  by (simp add: total_quantity_def)

lemma total_quantity_upd_notin:
  "l \<notin> set xs \<Longrightarrow>
   total_quantity (h(l := (h l)\<lparr>quantity := q\<rparr>)) xs p = total_quantity h xs p"
  by (induction xs) (simp_all add: total_quantity_Cons total_quantity_Nil)

lemma total_quantity_upd:
  "distinct xs \<Longrightarrow> l \<in> set xs \<Longrightarrow>
   total_quantity (h(l := (h l)\<lparr>quantity := quantity (h l) + d\<rparr>)) xs p =
   total_quantity h xs p + (if product_id (h l) = p then d else 0)"
proof (induction xs)
  case Nil
  then show ?case by simp
next
  case (Cons x xs)
  define h2 where "h2 = h(l := (h l)\<lparr>quantity := quantity (h l) + d\<rparr>)"
  show ?case
  proof (cases "x = l")
    case True
    then have "l \<notin> set xs" using Cons.prems by simp
    then have "total_quantity h2 xs p = total_quantity h xs p"
      unfolding h2_def by (rule total_quantity_upd_notin)
    moreover have "h2 l = (h l)\<lparr>quantity := quantity (h l) + d\<rparr>" by (simp add: h2_def)
    ultimately have "total_quantity h2 (x # xs) p =
        total_quantity h (x # xs) p + (if product_id (h l) = p then d else 0)"
      using True by (simp add: total_quantity_Cons)
    then show ?thesis by (simp only: h2_def)
  next
    case False
    then have "l \<in> set xs" "distinct xs" using Cons.prems by auto
    from Cons.IH[OF this(2) this(1)]
    have "total_quantity h2 xs p = total_quantity h xs p + (if product_id (h l) = p then d else 0)"
      by (simp only: h2_def)
    moreover have "h2 x = h x" using False by (simp add: h2_def)
    ultimately have "total_quantity h2 (x # xs) p =
        total_quantity h (x # xs) p + (if product_id (h l) = p then d else 0)"
      by (simp add: total_quantity_Cons)
    then show ?thesis by (simp only: h2_def)
  qed
qed

lemma total_quantity_append:
  "total_quantity h (xs @ ys) p = total_quantity h xs p + total_quantity h ys p"
  by (simp add: total_quantity_def)

lemma sorted_le_last: "sorted (map f xs) \<Longrightarrow> x \<in> set xs \<Longrightarrow> f x \<le> f (last xs)"
  by (induction xs) auto

lemma last_same_id:
  assumes "sorted (pids h (checked @ v # vs))" "product_id (h v) \<in> set (pids h checked)"
  shows "product_id (h (last checked)) = product_id (h v)"
proof -
  from assms(2) obtain c where c: "c \<in> set checked" "product_id (h c) = product_id (h v)"
    by (auto simp: pids_def)
  then have ne: "checked \<noteq> []" by auto
  have le: "product_id (h (last checked)) \<le> product_id (h v)"
    using assms(1) ne by (auto simp: pids_def sorted_append)
  have "sorted (map (\<lambda>v. product_id (h v)) checked)"
    using assms(1) by (auto simp: pids_def sorted_append)
  from sorted_le_last[OF this c(1)] le c(2) show ?thesis by simp
qed


lemma loop_total:
  "added = pids h checked \<Longrightarrow> sorted (pids h (checked @ vs)) \<Longrightarrow> distinct (checked @ vs) \<Longrightarrow>
   sum_duplicates_loop h added checked vs = Inr (h', out) \<Longrightarrow>
   total_quantity h' out p = total_quantity h (checked @ vs) p"
proof (induction vs arbitrary: h added checked)
  case Nil
  then show ?case by simp
next
  case (Cons v vs)
  show ?case
  proof (cases "product_id (h v) \<in> set added")
    case False
    have a: "added @ [product_id (h v)] = pids h (checked @ [v])"
      using Cons.prems by (simp add: pids_def)
    have r: "sum_duplicates_loop h (added @ [product_id (h v)]) (checked @ [v]) vs = Inr (h', out)"
      using Cons.prems False by simp
    have s: "sorted (pids h ((checked @ [v]) @ vs))" "distinct ((checked @ [v]) @ vs)"
      using Cons.prems by simp_all
    from Cons.IH[OF a s r] show ?thesis by simp
  next
    case True
    then obtain c cs where cc: "checked = c # cs"
      using Cons.prems by (cases checked) (auto simp: pids_def)
    define l where "l = last checked"
    define h2 where "h2 = h(l := (h l)\<lparr>quantity := quantity (h l) + quantity (h v)\<rparr>)"
    have lin: "l \<in> set checked" using cc l_def by simp
    have a: "added = pids h2 checked" using Cons.prems by (simp add: h2_def pids_quantity_upd)
    have r: "sum_duplicates_loop h2 added checked vs = Inr (h', out)"
      using Cons.prems True cc by (simp add: h2_def l_def Let_def)
    have "sorted (pids h (checked @ vs))"
      using Cons.prems(2) by (auto simp: pids_def sorted_append)
    then have s: "sorted (pids h2 (checked @ vs))" by (simp add: h2_def pids_quantity_upd)
    have d: "distinct (checked @ vs)" using Cons.prems(3) by auto
    have same: "product_id (h l) = product_id (h v)"
      unfolding l_def using Cons.prems(2) True Cons.prems(1) by (intro last_same_id) simp_all
    have "total_quantity h2 (checked @ vs) p =
          total_quantity h (checked @ vs) p + (if product_id (h l) = p then quantity (h v) else 0)"
      unfolding h2_def using d lin by (intro total_quantity_upd) simp_all
    also have "\<dots> = total_quantity h (checked @ v # vs) p"
      using same by (simp add: total_quantity_append total_quantity_Cons)
    finally show ?thesis using Cons.IH[OF a s d r] by simp
  qed
qed



lemma total_quantity_single:
  "distinct (pids h xs) \<Longrightarrow> r \<in> set xs \<Longrightarrow>
   total_quantity h xs (product_id (h r)) = quantity (h r)"
proof (induction xs)
  case Nil
  then show ?case by simp
next
  case (Cons x xs)
  show ?case
  proof (cases "r = x")
    case True
    have "product_id (h x) \<notin> set (pids h xs)" using Cons.prems(1) by (simp add: pids_def)
    then have "\<forall>v\<in>set xs. product_id (h v) \<noteq> product_id (h x)"
      unfolding pids_def by (metis image_eqI list.set_map)
    then have "filter (\<lambda>v. product_id (h v) = product_id (h x)) xs = []"
      by (simp add: filter_empty_conv)
    then show ?thesis using True by (simp add: total_quantity_def)
  next
    case False
    then have rin: "r \<in> set xs" using Cons.prems by simp
    have "product_id (h x) \<noteq> product_id (h r)"
      using Cons.prems(1) rin by (auto simp: pids_def)
    then show ?thesis using Cons.IH rin Cons.prems(1)
      by (simp add: total_quantity_Cons pids_def)
  qed
qed

lemma total_quantity_sort:
  "total_quantity h (sort_key (\<lambda>v. product_id (h v)) payload) p = total_quantity h payload p"
  by (simp add: total_quantity_def sort_key_stable)




lemma loop_no_duplicates:
  "added = pids h checked \<Longrightarrow> distinct (pids h (checked @ vs)) \<Longrightarrow>
   sum_duplicates_loop h added checked vs = Inr (h, checked @ vs)"
proof (induction vs arbitrary: added checked)
  case Nil
  then show ?case by simp
next
  case (Cons v vs)
  have n: "product_id (h v) \<notin> set added" using Cons.prems by (auto simp: pids_def)
  have a: "added @ [product_id (h v)] = pids h (checked @ [v])"
    using Cons.prems by (simp add: pids_def)
  have d: "distinct (pids h ((checked @ [v]) @ vs))" using Cons.prems(2) by simp
  from Cons.IH[OF a d] n show ?case by simp
qed

lemma sorted_pids_sort: "sorted (pids h (sort_key (\<lambda>v. product_id (h v)) payload))"
  by (simp add: pids_def)

lemma normalizer_returns:
  "\<exists>h' out. sort_by_id_check_and_sum_duplicates h payload = Inr (h', out)"
  unfolding sort_by_id_check_and_sum_duplicates_def
  using loop_returns[of "[]" h "[]"] by (simp add: pids_def) blast

lemma normalizer_shape:
  assumes "sort_by_id_check_and_sum_duplicates h payload = Inr (h', out)"
  shows "pids h' out = pids h out" "sorted (pids h out)" "distinct (pids h out)"
    "set (pids h out) = set (pids h payload)" "set out \<subseteq> set payload"
    "\<forall>r. product_id (h' r) = product_id (h r)" "\<forall>r. r \<notin> set out \<longrightarrow> h' r = h r"
proof -
  let ?S = "sort_key (\<lambda>v. product_id (h v)) payload"
  have r: "sum_duplicates_loop h [] [] ?S = Inr (h', out)"
    using assms by (simp add: sort_by_id_check_and_sum_duplicates_def)
  have a: "[] = pids h []" by (simp add: pids_def)
  from loop_returns[OF a, of ?S] r
  show p: "\<forall>r. product_id (h' r) = product_id (h r)" and "\<forall>r. r \<notin> set out \<longrightarrow> h' r = h r"
    and "set out \<subseteq> set payload" by auto
  from p show "pids h' out = pids h out" by (rule pids_cong)
  from loop_pids[OF a r] sorted_pids_sort[of h payload]
  show "sorted (pids h out)" "distinct (pids h out)" "set (pids h out) = set (pids h payload)"
    by (simp_all add: pids_def)
qed

lemma normalizer_quantity:
  assumes "distinct payload" "sort_by_id_check_and_sum_duplicates h payload = Inr (h', out)"
    "r \<in> set out"
  shows "quantity (h' r) = total_quantity h payload (product_id (h r))"
proof -
  let ?S = "sort_key (\<lambda>v. product_id (h v)) payload"
  have r: "sum_duplicates_loop h [] [] ?S = Inr (h', out)"
    using assms by (simp add: sort_by_id_check_and_sum_duplicates_def)
  have a: "[] = pids h []" by (simp add: pids_def)
  have "total_quantity h' out (product_id (h r)) = total_quantity h ([] @ ?S) (product_id (h r))"
    using loop_total[OF a _ _ r] assms(1) sorted_pids_sort[of h payload] by simp
  then have t: "total_quantity h' out (product_id (h r)) = total_quantity h payload (product_id (h r))"
    by (simp add: total_quantity_sort)
  from normalizer_shape[OF assms(2)] have "distinct (pids h' out)"
    and e: "product_id (h' r) = product_id (h r)" by simp_all
  from total_quantity_single[OF this(1) assms(3)] t e show ?thesis by simp
qed



text \<open>
  Claim C7. Normalization is idempotent: the normalizer always returns, and applied to the
  batch it returned, in the store it left, it returns the same batch and leaves the store
  as it is.
\<close>

theorem normalizer_idempotent:
  "\<exists>h' out. sort_by_id_check_and_sum_duplicates h payload = Inr (h', out)
     \<and> sort_by_id_check_and_sum_duplicates h' out = Inr (h', out)"
proof -
  from normalizer_returns obtain h' out where
    r: "sort_by_id_check_and_sum_duplicates h payload = Inr (h', out)" by blast
  from normalizer_shape[OF r] have s: "sorted (pids h' out)" and d: "distinct (pids h' out)"
    by simp_all
  have "sort_key (\<lambda>v. product_id (h' v)) out = out"
    using s by (intro sort_key_id_if_sorted) (simp add: pids_def)
  moreover have "sum_duplicates_loop h' [] [] out = Inr (h', [] @ out)"
    using d by (intro loop_no_duplicates) (simp_all add: pids_def)
  ultimately have "sort_by_id_check_and_sum_duplicates h' out = Inr (h', out)"
    by (simp add: sort_by_id_check_and_sum_duplicates_def)
  with r show ?thesis by blast
qed

lemma normalizer_spec:
  assumes "distinct payload"
  shows "\<exists>h' out. sort_by_id_check_and_sum_duplicates h payload = Inr (h', out)
     \<and> distinct (pids h' out) \<and> sorted (pids h' out)
     \<and> set (pids h' out) = set (pids h payload)
     \<and> (\<forall>r\<in>set out. quantity (h' r) = total_quantity h payload (product_id (h' r)))
     \<and> items h' out = map (\<lambda>p. (p, total_quantity h payload p))
                          (sorted_list_of_set (set (pids h payload)))"
proof -
  from normalizer_returns obtain h' out where
    r: "sort_by_id_check_and_sum_duplicates h payload = Inr (h', out)" by blast
  note s = normalizer_shape[OF r]
  have q: "\<forall>r\<in>set out. quantity (h' r) = total_quantity h payload (product_id (h' r))"
    using normalizer_quantity[OF assms r] s(6) by simp
  have "pids h' out = sorted_list_of_set (set (pids h' out))"
    using s(1,2,3) by (simp add: sorted_list_of_set.idem_if_sorted_distinct)
  then have p: "pids h' out = sorted_list_of_set (set (pids h payload))"
    using s(1,4) by simp
  have "items h' out = map (\<lambda>p. (p, total_quantity h payload p)) (pids h' out)"
    using q by (simp add: items_def pids_def)
  with p have "items h' out = map (\<lambda>p. (p, total_quantity h payload p))
                          (sorted_list_of_set (set (pids h payload)))" by simp
  with r q s show ?thesis by simp
qed





section \<open>The validation loops\<close>

lemma fold_collect:
  "fold (\<lambda>x acc. if P x then acc @ [f x] else acc) xs acc = acc @ map f (filter P xs)"
  by (induction xs arbitrary: acc) simp_all

lemma fold_collect_pair:
  "fold (\<lambda>v (a, b). (a @ [f v], if P v then b @ [f v] else b)) xs (a0, b0)
   = (a0 @ map f xs, b0 @ map f (filter P xs))"
  by (induction xs arbitrary: a0 b0) simp_all

lemma fold_collect_zip:
  "fold (\<lambda>(x, y) acc. if P x y then acc @ [f x y] else acc) xs acc
   = acc @ map (\<lambda>(x, y). f x y) (filter (\<lambda>(x, y). P x y) xs)"
  by (induction xs arbitrary: acc) (simp_all split: prod.splits)

lemma fold_append_zip:
  "fold (\<lambda>(x, y) acc. acc @ [f x y]) xs acc = acc @ map (\<lambda>(x, y). f x y) xs"
  by (induction xs arbitrary: acc) (simp_all split: prod.splits)

lemma greater_than_zero_eq:
  "check_if_products_payload_is_greater_than_zero h payload =
     (if \<exists>v\<in>set payload. quantity (h v) \<le> 0
      then Inl (InvalidStockQuantity (map (\<lambda>v. product_id (h v)) (filter (\<lambda>v. quantity (h v) \<le> 0) payload)))
      else Inr (map (\<lambda>v. product_id (h v)) payload))"
  by (simp add: check_if_products_payload_is_greater_than_zero_def fold_collect_pair
      filter_empty_conv)

lemma enough_stock_eq:
  "check_if_stock_has_enough_outgoing_quantity h found payload =
     (if \<exists>(p, v)\<in>set (zip found payload). quantity (h v) > inventory p
      then Inl (NotEnoughStockQuantity (map (\<lambda>(p, v). prod_id p)
             (filter (\<lambda>(p, v). quantity (h v) > inventory p) (zip found payload))))
      else Inr ())"
  by (auto simp add: check_if_stock_has_enough_outgoing_quantity_def
      fold_collect_zip[where P = "\<lambda>p v. quantity (h v) > inventory p" and f = "\<lambda>p v. prod_id p"]
      filter_empty_conv)

lemma dict_products_incoming:
  "fold (\<lambda>(p_found, p_payload) dict_products.
           dict_products @ [p_found\<lparr>inventory := inventory p_found + quantity (h p_payload)\<rparr>])
      (zip found payload) []
   = map (\<lambda>(p, v). p\<lparr>inventory := inventory p + quantity (h v)\<rparr>) (zip found payload)"
  by (simp add: fold_append_zip[where f = "\<lambda>p v. p\<lparr>inventory := inventory p + quantity (h v)\<rparr>"])

lemma dict_products_outgoing:
  "fold (\<lambda>(p_found, p_payload) dict_products.
           dict_products @ [p_found\<lparr>inventory := inventory p_found - quantity (h p_payload)\<rparr>])
      (zip found payload) []
   = map (\<lambda>(p, v). p\<lparr>inventory := inventory p - quantity (h v)\<rparr>) (zip found payload)"
  by (simp add: fold_append_zip[where f = "\<lambda>p v. p\<lparr>inventory := inventory p - quantity (h v)\<rparr>"])

lemma fold_remove_found:
  "distinct ids \<Longrightarrow>
   fold (\<lambda>p l. if prod_id p \<in> set l then remove1 (prod_id p) l else l) found ids
   = filter (\<lambda>i. i \<notin> prod_id ` set found) ids"
proof (induction found arbitrary: ids)
  case Nil
  then show ?case by simp
next
  case (Cons p ps)
  let ?l = "if prod_id p \<in> set ids then remove1 (prod_id p) ids else ids"
  have "(\<lambda>i. prod_id p \<noteq> i) = (\<lambda>i. i \<noteq> prod_id p)" by auto
  then have l: "?l = filter (\<lambda>i. i \<noteq> prod_id p) ids"
    using Cons.prems by (auto simp: distinct_remove1_removeAll removeAll_filter_not_eq
        intro!: filter_True[symmetric])
  then have d: "distinct ?l" using Cons.prems by simp
  have "fold (\<lambda>p l. if prod_id p \<in> set l then remove1 (prod_id p) l else l) (p # ps) ids
      = fold (\<lambda>p l. if prod_id p \<in> set l then remove1 (prod_id p) l else l) ps ?l" by simp
  also have "\<dots> = filter (\<lambda>i. i \<notin> prod_id ` set ps) ?l" using Cons.IH[OF d] .
  also have "\<dots> = filter (\<lambda>i. i \<notin> prod_id ` set (p # ps)) ids"
    unfolding l by (auto intro: filter_cong)
  finally show ?case .
qed

section \<open>Product lookup\<close>

lemma query_products_set:
  "set (query_products db ids) = {p \<in> set (products db). prod_id p \<in> set ids}"
  by (auto simp: query_products_def)

lemma query_products_ids:
  "prod_id ` set (query_products db ids) = set ids \<inter> prod_id ` set (products db)"
  by (auto simp: query_products_set)

lemma query_products_sorted: "sorted (map prod_id (query_products db ids))"
  by (simp add: query_products_def)

lemma distinct_map_insort_key:
  "distinct (map f (insort_key f x xs)) = (f x \<notin> f ` set xs \<and> distinct (map f xs))"
  by (induction xs) (auto simp: set_insort_key)

lemma distinct_map_sort_key: "distinct (map f (sort_key f xs)) = distinct (map f xs)"
  by (induction xs) (simp_all add: distinct_map_insort_key)

lemma query_products_distinct:
  "distinct (map prod_id (products db)) \<Longrightarrow> distinct (map prod_id (query_products db ids))"
  by (simp add: query_products_def distinct_map_sort_key distinct_map_filter)

lemma query_products_length:
  assumes "distinct ids" "distinct (map prod_id (products db))"
  shows "length (query_products db ids) = length ids \<longleftrightarrow> set ids \<subseteq> prod_id ` set (products db)"
proof -
  have "length (query_products db ids) = card (prod_id ` set (query_products db ids))"
    using query_products_distinct[OF assms(2), of ids]
    by (metis distinct_card length_map list.set_map)
  then have l: "length (query_products db ids) = card (set ids \<inter> prod_id ` set (products db))"
    by (simp add: query_products_ids)
  have c: "length ids = card (set ids)" using assms(1) by (simp add: distinct_card)
  show ?thesis
  proof
    assume "length (query_products db ids) = length ids"
    then have "card (set ids \<inter> prod_id ` set (products db)) = card (set ids)" using l c by simp
    then have "set ids \<inter> prod_id ` set (products db) = set ids"
      by (intro card_subset_eq) auto
    then show "set ids \<subseteq> prod_id ` set (products db)" by auto
  next
    assume "set ids \<subseteq> prod_id ` set (products db)"
    then have "set ids \<inter> prod_id ` set (products db) = set ids" by auto
    then show "length (query_products db ids) = length ids" using l c by simp
  qed
qed

lemma get_products_eq:
  assumes "distinct ids" "distinct (map prod_id (products db))"
  shows "get_products_from_database db ids =
     (if set ids \<subseteq> prod_id ` set (products db) then Inr (query_products db ids)
      else Inl (ItensNotFound (IdsText (filter (\<lambda>i. i \<notin> prod_id ` set (products db)) ids))))"
proof -
  have f: "filter (\<lambda>i. i \<notin> prod_id ` set (query_products db ids)) ids
         = filter (\<lambda>i. i \<notin> prod_id ` set (products db)) ids"
    by (rule filter_cong) (auto simp: query_products_ids)
  have "get_products_from_database db ids =
     (if length (query_products db ids) = length ids then Inr (query_products db ids)
      else Inl (ItensNotFound (IdsText (filter (\<lambda>i. i \<notin> prod_id ` set (query_products db ids)) ids))))"
    unfolding get_products_from_database_def Let_def
    by (simp only: fold_remove_found[OF assms(1)])
  then show ?thesis
    unfolding f using query_products_length[OF assms] by simp
qed

lemma get_products_aligned:
  assumes "distinct ids" "sorted ids" "distinct (map prod_id (products db))"
    and "get_products_from_database db ids = Inr found"
  shows "map prod_id found = ids" "set found \<subseteq> set (products db)"
proof -
  from assms(4) get_products_eq[OF assms(1,3)]
  have s: "set ids \<subseteq> prod_id ` set (products db)" and fd: "found = query_products db ids"
    by (auto split: if_splits)
  have "set (map prod_id found) = set ids" using s fd query_products_ids[of db ids] by auto
  moreover have "sorted (map prod_id found)" "distinct (map prod_id found)"
    using fd query_products_sorted query_products_distinct[OF assms(3)] by simp_all
  ultimately show "map prod_id found = ids"
    using assms(1,2) by (intro sorted_distinct_set_unique) simp_all
  show "set found \<subseteq> set (products db)" using fd by (auto simp: query_products_set)
qed

section \<open>Inventory update\<close>

lemma find_map_update:
  "find (\<lambda>p. prod_id p = i) (map (\<lambda>r. if prod_id r = prod_id d then d else r) rows) =
     (case find (\<lambda>p. prod_id p = i) rows of None \<Rightarrow> None
      | Some p \<Rightarrow> if prod_id d = i then Some d else Some p)"
  by (induction rows) auto

lemma find_None_notin: "find (\<lambda>p. f p = i) xs = None \<longleftrightarrow> i \<notin> f ` set xs"
  by (auto simp: find_None_iff)

lemma bulk_update_find:
  "distinct (map prod_id dicts) \<Longrightarrow>
   find (\<lambda>p. prod_id p = i) (bulk_update_mappings rows dicts) =
     (case find (\<lambda>p. prod_id p = i) rows of None \<Rightarrow> None
      | Some p \<Rightarrow> (case find (\<lambda>d. prod_id d = i) dicts of None \<Rightarrow> Some p | Some d \<Rightarrow> Some d))"
proof (induction dicts arbitrary: rows)
  case Nil
  then show ?case by (simp add: bulk_update_mappings_def split: option.splits)
next
  case (Cons d ds)
  let ?rows = "map (\<lambda>r. if prod_id r = prod_id d then d else r) rows"
  have b: "bulk_update_mappings rows (d # ds) = bulk_update_mappings ?rows ds"
    by (simp add: bulk_update_mappings_def)
  have ds: "distinct (map prod_id ds)" and n: "prod_id d \<notin> prod_id ` set ds"
    using Cons.prems by auto
  have fn: "prod_id d = i \<Longrightarrow> find (\<lambda>d. prod_id d = i) ds = None"
    using n by (simp add: find_None_notin)
  show ?case
    unfolding b Cons.IH[OF ds] find_map_update
    using fn by (auto split: option.splits)
qed

lemma bulk_update_ids:
  "map prod_id (bulk_update_mappings rows dicts) = map prod_id rows"
proof (induction dicts arbitrary: rows)
  case Nil
  then show ?case by (simp add: bulk_update_mappings_def)
next
  case (Cons d ds)
  let ?rows = "map (\<lambda>r. if prod_id r = prod_id d then d else r) rows"
  have b: "bulk_update_mappings rows (d # ds) = bulk_update_mappings ?rows ds"
    by (simp add: bulk_update_mappings_def)
  have "map prod_id ?rows = map prod_id rows" by (induction rows) auto
  with Cons.IH[of ?rows] b show ?case by simp
qed

lemma find_distinct_key:
  "distinct (map f xs) \<Longrightarrow> x \<in> set xs \<Longrightarrow> find (\<lambda>y. f y = f x) xs = Some x"
  by (induction xs) (auto simp: image_iff)

lemma zip_update_ids:
  "length found = length out \<Longrightarrow>
   map prod_id (map (\<lambda>(p, v). p\<lparr>inventory := g p v\<rparr>) (zip found out)) = map prod_id found"
  by (induction found out rule: list_induct2) simp_all

lemma update_find:
  assumes pk: "distinct (map prod_id rows)"
    and al: "map prod_id found = map key out"
    and sub: "set found \<subseteq> set rows"
    and d: "distinct (map key out)"
    and r: "r \<in> set out"
  shows "\<exists>p\<in>set rows. prod_id p = key r \<and> (p, r) \<in> set (zip found out) \<and>
           find (\<lambda>p. prod_id p = key r) rows = Some p \<and>
           find (\<lambda>p. prod_id p = key r)
             (bulk_update_mappings rows (map (\<lambda>(p, v). p\<lparr>inventory := g p v\<rparr>) (zip found out)))
           = Some (p\<lparr>inventory := g p r\<rparr>)"
proof -
  let ?dicts = "map (\<lambda>(p, v). p\<lparr>inventory := g p v\<rparr>) (zip found out)"
  have len: "length found = length out" using al by (metis length_map)
  from r obtain k where k: "k < length out" "out ! k = r" by (auto simp: in_set_conv_nth)
  define p where "p = found ! k"
  have pin: "p \<in> set found" using k len by (simp add: p_def)
  then have prow: "p \<in> set rows" using sub by auto
  have pid: "prod_id p = key r"
  proof -
    have "map prod_id found ! k = map key out ! k" using al by simp
    then show ?thesis using k len by (simp add: p_def)
  qed
  have f1: "find (\<lambda>p. prod_id p = key r) rows = Some p"
    using find_distinct_key[OF pk prow] pid by simp
  have ids: "map prod_id ?dicts = map prod_id found" using len by (rule zip_update_ids)
  have dd: "distinct (map prod_id ?dicts)" using ids al d by simp
  have dk: "?dicts ! k = p\<lparr>inventory := g p r\<rparr>" using k len by (simp add: p_def)
  have din: "?dicts ! k \<in> set ?dicts" using k len by (intro nth_mem) simp
  have "find (\<lambda>y. prod_id y = prod_id (?dicts ! k)) ?dicts = Some (?dicts ! k)"
    using dd din by (rule find_distinct_key)
  then have f2: "find (\<lambda>y. prod_id y = key r) ?dicts = Some (p\<lparr>inventory := g p r\<rparr>)"
    using dk pid by simp
  have "find (\<lambda>p. prod_id p = key r) (bulk_update_mappings rows ?dicts) = Some (p\<lparr>inventory := g p r\<rparr>)"
    unfolding bulk_update_find[OF dd] using f1 f2 by simp
  moreover have "(p, r) \<in> set (zip found out)"
    using k len unfolding p_def by (metis in_set_zip fst_conv snd_conv)
  ultimately show ?thesis using prow pid f1 by blast
qed

lemma update_find_other:
  assumes al: "map prod_id found = map key out" and d: "distinct (map key out)"
    and i: "i \<notin> key ` set out"
  shows "find (\<lambda>p. prod_id p = i)
             (bulk_update_mappings rows (map (\<lambda>(p, v). p\<lparr>inventory := g p v\<rparr>) (zip found out)))
         = find (\<lambda>p. prod_id p = i) rows"
proof -
  let ?dicts = "map (\<lambda>(p, v). p\<lparr>inventory := g p v\<rparr>) (zip found out)"
  have len: "length found = length out" using al by (metis length_map)
  have ids: "map prod_id ?dicts = map prod_id found" using len by (rule zip_update_ids)
  have dd: "distinct (map prod_id ?dicts)" using ids al d by simp
  have "i \<notin> set (map prod_id ?dicts)" unfolding ids al using i by simp
  moreover have "set (map prod_id ?dicts) = prod_id ` set ?dicts" by (rule set_map)
  ultimately have "i \<notin> prod_id ` set ?dicts" by blast
  then have "find (\<lambda>p. prod_id p = i) ?dicts = None"
    using find_None_notin[of prod_id i ?dicts] by blast
  then show ?thesis unfolding bulk_update_find[OF dd] by (simp split: option.splits)
qed

section \<open>Runs of create\<close>

lemma greater_than_zero_Inr:
  "check_if_products_payload_is_greater_than_zero h payload = Inr ids \<Longrightarrow>
   ids = pids h payload \<and> (\<forall>v\<in>set payload. 0 < quantity (h v))"
  by (auto simp: greater_than_zero_eq pids_def split: if_splits)

lemma enough_stock_Inr:
  "check_if_stock_has_enough_outgoing_quantity h found payload = Inr x \<Longrightarrow>
   (p, v) \<in> set (zip found payload) \<Longrightarrow> quantity (h v) \<le> inventory p"
  by (auto simp: enough_stock_eq split: if_splits)

lemma insert_transaction_Inr:
  "insert_transaction f db t = Inr (db1, tr) \<Longrightarrow>
   products db1 = products db \<and> providers db1 = providers db
   \<and> transactions db1 = transactions db @ [tr]"
  by (auto simp: insert_transaction_def Let_def split: if_splits)

lemma update_incoming_Inr:
  "update_products_inventory f db h found out = Inr db' \<Longrightarrow>
   db' = db\<lparr>products := bulk_update_mappings (products db)
            (map (\<lambda>(p, v). p\<lparr>inventory := inventory p + quantity (h v)\<rparr>) (zip found out))\<rparr>"
  by (auto simp: update_products_inventory_def dict_products_incoming split: if_splits)

lemma update_outgoing_Inr:
  "update_products_inventory_outgoing f db h found out = Inr db' \<Longrightarrow>
   db' = db\<lparr>products := bulk_update_mappings (products db)
            (map (\<lambda>(p, v). p\<lparr>inventory := inventory p - quantity (h v)\<rparr>) (zip found out))\<rparr>"
  by (auto simp: update_products_inventory_outgoing_def dict_products_outgoing split: if_splits)

lemma create_incoming_Inr:
  assumes "req_type t = incoming" "create f db h u t = ((db', h'), Inr tr)"
  shows "\<exists>out ids found db1 tc.
       sort_by_id_check_and_sum_duplicates h (req_products t) = Inr (h', out)
     \<and> check_if_products_payload_is_greater_than_zero h' out = Inr ids
     \<and> get_products_from_database db ids = Inr found
     \<and> insert_transaction f db tc = Inr (db1, tr)
     \<and> update_products_inventory f db1 h' found out = Inr db'"
  using assms unfolding create_def Let_def from_orm_def
  by (simp split: if_splits sum.splits prod.splits) blast

lemma create_outgoing_Inr:
  assumes "req_type t = outgoing" "create f db h u t = ((db', h'), Inr tr)"
  shows "\<exists>out ids found db1 tc.
       sort_by_id_check_and_sum_duplicates h (req_products t) = Inr (h', out)
     \<and> check_if_products_payload_is_greater_than_zero h' out = Inr ids
     \<and> get_products_from_database db ids = Inr found
     \<and> check_if_stock_has_enough_outgoing_quantity h' found out = Inr ()
     \<and> insert_transaction f db tc = Inr (db1, tr)
     \<and> update_products_inventory_outgoing f db1 h' found out = Inr db'"
  using assms unfolding create_def Let_def from_orm_def
  by (simp split: if_splits sum.splits prod.splits) blast

lemma lookup_step:
  assumes pk: "distinct (map prod_id (products db))"
    and n: "sort_by_id_check_and_sum_duplicates h payload = Inr (h', out)"
    and g: "get_products_from_database db (pids h' out) = Inr found"
  shows "map prod_id found = map (\<lambda>v. product_id (h' v)) out" "set found \<subseteq> set (products db)"
    "distinct (map (\<lambda>v. product_id (h' v)) out)"
proof -
  from normalizer_shape[OF n] have s: "sorted (pids h' out)" and d: "distinct (pids h' out)"
    by simp_all
  from get_products_aligned[OF d s pk g]
  show "map prod_id found = map (\<lambda>v. product_id (h' v)) out" "set found \<subseteq> set (products db)"
    by (simp_all add: pids_def)
  from d show "distinct (map (\<lambda>v. product_id (h' v)) out)" by (simp add: pids_def)
qed

lemma create_inventory_effect:
  assumes pk: "distinct (map prod_id (products db))"
    and c: "create f db h u t = ((db', h'), Inr tr)"
  shows "\<exists>out. sort_by_id_check_and_sum_duplicates h (req_products t) = Inr (h', out)
     \<and> (\<forall>r\<in>set out. \<exists>inv. inventory_of db (product_id (h' r)) = Some inv
           \<and> inventory_of db' (product_id (h' r)) =
               Some (case req_type t of incoming \<Rightarrow> inv + quantity (h' r)
                                      | outgoing \<Rightarrow> inv - quantity (h' r))
           \<and> (req_type t = outgoing \<longrightarrow> 0 \<le> inv - quantity (h' r)))
     \<and> (\<forall>i. i \<notin> set (pids h' out) \<longrightarrow> inventory_of db' i = inventory_of db i)"
proof (cases "req_type t")
  case incoming
  from create_incoming_Inr[OF incoming c] obtain out ids found db1 tc where
    n: "sort_by_id_check_and_sum_duplicates h (req_products t) = Inr (h', out)"
    and z: "check_if_products_payload_is_greater_than_zero h' out = Inr ids"
    and g: "get_products_from_database db ids = Inr found"
    and i: "insert_transaction f db tc = Inr (db1, tr)"
    and u: "update_products_inventory f db1 h' found out = Inr db'" by blast
  from greater_than_zero_Inr[OF z] have ids: "ids = pids h' out" by simp
  note l = lookup_step[OF pk n g[unfolded ids]]
  from insert_transaction_Inr[OF i] have p1: "products db1 = products db" by simp
  let ?g = "\<lambda>p v. inventory p + quantity (h' v)"
  have db': "products db' = bulk_update_mappings (products db)
        (map (\<lambda>(p, v). p\<lparr>inventory := ?g p v\<rparr>) (zip found out))"
    using update_incoming_Inr[OF u] p1 by simp
  have a: "\<forall>r\<in>set out. \<exists>inv. inventory_of db (product_id (h' r)) = Some inv
           \<and> inventory_of db' (product_id (h' r)) =
               Some (case req_type t of incoming \<Rightarrow> inv + quantity (h' r)
                                      | outgoing \<Rightarrow> inv - quantity (h' r))
           \<and> (req_type t = outgoing \<longrightarrow> 0 \<le> inv - quantity (h' r))"
  proof
    fix r assume r: "r \<in> set out"
    from update_find[OF pk l(1) l(2) l(3) r, where g = ?g] obtain p where
      "find (\<lambda>p. prod_id p = product_id (h' r)) (products db) = Some p"
      "find (\<lambda>p. prod_id p = product_id (h' r)) (products db') = Some (p\<lparr>inventory := ?g p r\<rparr>)"
      unfolding db' by blast
    then show "\<exists>inv. inventory_of db (product_id (h' r)) = Some inv
           \<and> inventory_of db' (product_id (h' r)) =
               Some (case req_type t of incoming \<Rightarrow> inv + quantity (h' r)
                                      | outgoing \<Rightarrow> inv - quantity (h' r))
           \<and> (req_type t = outgoing \<longrightarrow> 0 \<le> inv - quantity (h' r))"
      using incoming by (simp add: inventory_of_def)
  qed
  have b: "\<forall>i. i \<notin> set (pids h' out) \<longrightarrow> inventory_of db' i = inventory_of db i"
  proof (intro allI impI)
    fix i assume "i \<notin> set (pids h' out)"
    then have "i \<notin> (\<lambda>v. product_id (h' v)) ` set out" by (simp add: pids_def)
    from update_find_other[OF l(1) l(3) this, where g = ?g and rows = "products db"]
    show "inventory_of db' i = inventory_of db i" by (simp add: inventory_of_def db')
  qed
  from n a b show ?thesis by blast
next
  case outgoing
  from create_outgoing_Inr[OF outgoing c] obtain out ids found db1 tc where
    n: "sort_by_id_check_and_sum_duplicates h (req_products t) = Inr (h', out)"
    and z: "check_if_products_payload_is_greater_than_zero h' out = Inr ids"
    and g: "get_products_from_database db ids = Inr found"
    and e: "check_if_stock_has_enough_outgoing_quantity h' found out = Inr ()"
    and i: "insert_transaction f db tc = Inr (db1, tr)"
    and u: "update_products_inventory_outgoing f db1 h' found out = Inr db'" by blast
  from greater_than_zero_Inr[OF z] have ids: "ids = pids h' out" by simp
  note l = lookup_step[OF pk n g[unfolded ids]]
  from insert_transaction_Inr[OF i] have p1: "products db1 = products db" by simp
  let ?g = "\<lambda>p v. inventory p - quantity (h' v)"
  have db': "products db' = bulk_update_mappings (products db)
        (map (\<lambda>(p, v). p\<lparr>inventory := ?g p v\<rparr>) (zip found out))"
    using update_outgoing_Inr[OF u] p1 by simp
  have a: "\<forall>r\<in>set out. \<exists>inv. inventory_of db (product_id (h' r)) = Some inv
           \<and> inventory_of db' (product_id (h' r)) =
               Some (case req_type t of incoming \<Rightarrow> inv + quantity (h' r)
                                      | outgoing \<Rightarrow> inv - quantity (h' r))
           \<and> (req_type t = outgoing \<longrightarrow> 0 \<le> inv - quantity (h' r))"
  proof
    fix r assume r: "r \<in> set out"
    from update_find[OF pk l(1) l(2) l(3) r, where g = ?g] obtain p where
      "(p, r) \<in> set (zip found out)"
      "find (\<lambda>p. prod_id p = product_id (h' r)) (products db) = Some p"
      "find (\<lambda>p. prod_id p = product_id (h' r)) (products db') = Some (p\<lparr>inventory := ?g p r\<rparr>)"
      unfolding db' by blast
    moreover from enough_stock_Inr[OF e this(1)] have "quantity (h' r) \<le> inventory p" .
    ultimately show "\<exists>inv. inventory_of db (product_id (h' r)) = Some inv
           \<and> inventory_of db' (product_id (h' r)) =
               Some (case req_type t of incoming \<Rightarrow> inv + quantity (h' r)
                                      | outgoing \<Rightarrow> inv - quantity (h' r))
           \<and> (req_type t = outgoing \<longrightarrow> 0 \<le> inv - quantity (h' r))"
      using outgoing by (simp add: inventory_of_def)
  qed
  have b: "\<forall>i. i \<notin> set (pids h' out) \<longrightarrow> inventory_of db' i = inventory_of db i"
  proof (intro allI impI)
    fix i assume "i \<notin> set (pids h' out)"
    then have "i \<notin> (\<lambda>v. product_id (h' v)) ` set out" by (simp add: pids_def)
    from update_find_other[OF l(1) l(3) this, where g = ?g and rows = "products db"]
    show "inventory_of db' i = inventory_of db i" by (simp add: inventory_of_def db')
  qed
  from n a b show ?thesis by blast
qed

lemma zip_map_eq:
  "map f xs = map g ys \<Longrightarrow> (x, y) \<in> set (zip xs ys) \<Longrightarrow> f x = g y"
proof -
  assume a: "map f xs = map g ys" "(x, y) \<in> set (zip xs ys)"
  then obtain k where k: "k < length xs" "k < length ys" "xs ! k = x" "ys ! k = y"
    by (auto simp: in_set_zip)
  have "map f xs ! k = map g ys ! k" using a(1) by simp
  with k show ?thesis by simp
qed

lemma inventory_of_Some:
  "inventory_of db i = Some q \<Longrightarrow> \<exists>p\<in>set (products db). prod_id p = i \<and> inventory p = q"
proof -
  assume "inventory_of db i = Some q"
  then obtain p where "find (\<lambda>p. prod_id p = i) (products db) = Some p" "inventory p = q"
    by (auto simp: inventory_of_def)
  then have "p \<in> set (products db)" "prod_id p = i" "inventory p = q"
    by (auto simp: find_Some_iff)
  then show ?thesis by blast
qed

lemma inventory_of_row:
  "distinct (map prod_id (products db)) \<Longrightarrow> p \<in> set (products db) \<Longrightarrow>
   inventory_of db (prod_id p) = Some (inventory p)"
  by (simp add: inventory_of_def find_distinct_key)

lemma outgoing_exact_stock:
  assumes pk: "distinct (map prod_id (products db))"
    and og: "req_type t = outgoing"
    and ne: "req_products t \<noteq> []"
    and n: "sort_by_id_check_and_sum_duplicates h (req_products t) = Inr (h', out)"
    and ex: "\<forall>r\<in>set out. 0 < quantity (h' r)
               \<and> inventory_of db (product_id (h' r)) = Some (quantity (h' r))"
  shows "\<exists>db' tr. create NoFault db h u t = ((db', h'), Inr tr)
           \<and> (\<forall>r\<in>set out. inventory_of db' (product_id (h' r)) = Some 0)"
proof -
  have z: "check_if_products_payload_is_greater_than_zero h' out = Inr (pids h' out)"
    using ex by (auto simp: greater_than_zero_eq pids_def)
  from normalizer_shape[OF n] have d: "distinct (pids h' out)" by simp
  have sub: "set (pids h' out) \<subseteq> prod_id ` set (products db)"
  proof
    fix i assume "i \<in> set (pids h' out)"
    then obtain r where r: "r \<in> set out" "i = product_id (h' r)" by (auto simp: pids_def)
    with ex have "inventory_of db i = Some (quantity (h' r))" by simp
    from inventory_of_Some[OF this] show "i \<in> prod_id ` set (products db)" by auto
  qed
  define found where "found = query_products db (pids h' out)"
  have g: "get_products_from_database db (pids h' out) = Inr found"
    using get_products_eq[OF d pk] sub by (simp add: found_def)
  note l = lookup_step[OF pk n g]
  have e: "check_if_stock_has_enough_outgoing_quantity h' found out = Inr ()"
  proof -
    have "\<not> quantity (h' v) > inventory p" if pv: "(p, v) \<in> set (zip found out)" for p v
    proof -
      have "prod_id p = product_id (h' v)" using zip_map_eq[OF l(1) pv] .
      moreover have "p \<in> set (products db)" "v \<in> set out"
        using pv l(2) by (auto dest: set_zip_leftD set_zip_rightD)
      ultimately have "Some (inventory p) = Some (quantity (h' v))"
        using inventory_of_row[OF pk, of p] ex by simp
      then show ?thesis by simp
    qed
    then show ?thesis by (auto simp: enough_stock_eq)
  qed
  define tc where "tc = \<lparr>tx_id = 0, tx_type = outgoing,
                  tx_description = req_description t, tx_date = req_date t,
                  tx_provider_id = None, tx_created_by = u,
                  products_transaction = map (\<lambda>product.
                     \<lparr>tp_product_id = product_id (h' product),
                      tp_quantity = quantity (h' product)\<rparr>) out\<rparr>"
  define tr where "tr = tc\<lparr>tx_id := next_transaction_id db\<rparr>"
  define db1 where "db1 = db\<lparr>transactions := transactions db @ [tr]\<rparr>"
  have i: "insert_transaction NoFault db tc = Inr (db1, tr)"
    by (simp add: insert_transaction_def db1_def tr_def Let_def)
  obtain db' where up: "update_products_inventory_outgoing NoFault db1 h' found out = Inr db'"
    by (simp add: update_products_inventory_outgoing_def)
  have c: "create NoFault db h u t = ((db', h'), Inr tr)"
    using og ne n z g e i[unfolded tc_def] up unfolding create_def Let_def from_orm_def by simp
  have "inventory_of db' (product_id (h' r)) = Some 0" if r: "r \<in> set out" for r
  proof -
    from create_inventory_effect[OF pk c] n r obtain inv where
      "inventory_of db (product_id (h' r)) = Some inv"
      "inventory_of db' (product_id (h' r)) =
               Some (case req_type t of incoming \<Rightarrow> inv + quantity (h' r)
                                      | outgoing \<Rightarrow> inv - quantity (h' r))"
      by auto
    with ex r og show ?thesis by simp
  qed
  with c show ?thesis by blast
qed

lemma create_faults_after_validation:
  assumes "create NoFault db h u t = ((db2, h'), Inr tr)"
  shows "create InsertFails db h u t = ((db, h'), Inl StorageError)"
    and "create UpdateFails db h u t
           = ((db\<lparr>transactions := transactions db @ [tr]\<rparr>, h'), Inl StorageError)"
    and "create ResponseFails db h u t = ((db2, h'), Inl ResponseError)"
    and "transactions db2 = transactions db @ [tr]"
    and "providers db2 = providers db"
  using assms unfolding create_def Let_def from_orm_def insert_transaction_def
    update_products_inventory_def update_products_inventory_outgoing_def
  by (auto split: if_splits sum.splits prod.splits TransactionTypeEnum.splits)

lemma create_validation_failure:
  assumes "create NoFault db h u t = ((db', h'), Inl e)"
  shows "db' = db" and "create f db h u t = ((db, h'), Inl e)"
  using assms unfolding create_def Let_def from_orm_def insert_transaction_def
    update_products_inventory_def update_products_inventory_outgoing_def
  by (auto split: if_splits sum.splits prod.splits TransactionTypeEnum.splits)

section \<open>Normalizing a sequence of line items\<close>

lemma alloc_objects:
  "map (alloc xs) [0..<length xs] = map (\<lambda>x. \<lparr>product_id = fst x, quantity = snd x\<rparr>) xs"
  by (rule nth_equalityI) (simp_all add: alloc_def)

lemma pids_alloc: "pids (alloc xs) [0..<length xs] = map fst xs"
proof -
  have "pids (alloc xs) [0..<length xs] = map product_id (map (alloc xs) [0..<length xs])"
    by (simp add: pids_def)
  then show ?thesis unfolding alloc_objects by (simp add: comp_def)
qed

lemma total_quantity_alloc:
  "total_quantity (alloc xs) [0..<length xs] p = sum_list (map snd (filter (\<lambda>x. fst x = p) xs))"
proof -
  have "total_quantity (alloc xs) [0..<length xs] p
      = sum_list (map quantity (filter (\<lambda>o'. product_id o' = p) (map (alloc xs) [0..<length xs])))"
    by (simp add: total_quantity_def filter_map comp_def)
  then show ?thesis unfolding alloc_objects by (simp add: filter_map comp_def)
qed

text \<open>
  Claim C3. For every sequence of (product id, quantity) line items, each its own object, the
  normalizer returns a batch with at most one entry per product id, ordered by product id
  ascending, holding exactly the product ids requested, in which the quantity of a product
  is the sum of the quantities requested for it: the batch is the ascending list of the
  requested ids, each with its sum. Two requests with the same sums per product therefore
  normalize to the same batch, as \<open>[(1, 3), (1, 2)]\<close> and \<open>[(1, 5)]\<close> do below.
\<close>

theorem normalizer_merges_and_sorts:
  "\<exists>h' out. sort_by_id_check_and_sum_duplicates (alloc xs) [0..<length xs] = Inr (h', out)
     \<and> distinct (map fst (items h' out)) \<and> sorted (map fst (items h' out))
     \<and> set (map fst (items h' out)) = fst ` set xs
     \<and> items h' out = map (\<lambda>p. (p, sum_list (map snd (filter (\<lambda>x. fst x = p) xs))))
                          (sorted_list_of_set (fst ` set xs))"
proof -
  have d: "distinct [0..<length xs]" by simp
  from normalizer_spec[OF d, of "alloc xs"] obtain h' out where
    r: "sort_by_id_check_and_sum_duplicates (alloc xs) [0..<length xs] = Inr (h', out)"
    and p: "distinct (pids h' out)" "sorted (pids h' out)"
      "set (pids h' out) = set (pids (alloc xs) [0..<length xs])"
    and i: "items h' out = map (\<lambda>p. (p, total_quantity (alloc xs) [0..<length xs] p))
                          (sorted_list_of_set (set (pids (alloc xs) [0..<length xs])))"
    by blast
  have f: "map fst (items h' out) = pids h' out" by (simp add: items_def pids_def comp_def)
  have s: "set (pids (alloc xs) [0..<length xs]) = fst ` set xs" by (simp add: pids_alloc)
  have 1: "distinct (map fst (items h' out))" and 2: "sorted (map fst (items h' out))"
    using p(1,2) by (simp_all only: f)
  have 3: "set (map fst (items h' out)) = fst ` set xs" using p(3) by (simp only: f s)
  have 4: "items h' out = map (\<lambda>p. (p, sum_list (map snd (filter (\<lambda>x. fst x = p) xs))))
                          (sorted_list_of_set (fst ` set xs))"
    using i by (simp only: s total_quantity_alloc)
  from r 1 2 3 4 show ?thesis by (intro exI conjI)
qed

lemma normalizer_merges_example:
  "(\<exists>h' out. sort_by_id_check_and_sum_duplicates (alloc [(1, 3), (1, 2)]) [0, 1] = Inr (h', out)
      \<and> items h' out = [(1, 5)]) \<and>
   (\<exists>h' out. sort_by_id_check_and_sum_duplicates (alloc [(1, 5)]) [0] = Inr (h', out)
      \<and> items h' out = [(1, 5)])"
  by (simp add: sort_by_id_check_and_sum_duplicates_def alloc_def items_def)

section \<open>Provider check\<close>

lemma check_provider_existence_missing:
  "find (\<lambda>p. prov_id p = i) (providers db) = None \<Longrightarrow>
   check_provider_existence db (Some i) = Inl AttributeError"
  by (simp add: check_provider_existence_def getattr_name_def)

lemma check_provider_existence_never_ProviderNotFound:
  "check_provider_existence db provider_id \<noteq> Inl (ProviderNotFound n)"
  by (auto simp: check_provider_existence_def getattr_name_def Let_def split: option.splits)

text \<open>
  Claim C4. An incoming create that names a provider id with no provider row does not end
  in \<open>ProviderNotFound\<close>: building the exception reads \<open>provider.name\<close> of \<open>None\<close>, and the
  call ends in \<open>AttributeError\<close>. Here provider 7 is requested and the table of providers is
  empty.
\<close>

theorem create_missing_provider_raises_AttributeError:
  "create NoFault db_no_provider (alloc [(1, 5)]) 1 (request incoming (Some 7) [0])
   = ((db_no_provider, alloc [(1, 5)]), Inl AttributeError)"
  by (simp add: create_def request_def check_provider_existence_def getattr_name_def
      db_no_provider_def)

section \<open>Date filters\<close>

lemma invalid_range_any_storage:
  "s > f \<Longrightarrow>
   make_transaction_query_with_filters db pn vn d ty (PyDate s) (PyDate f) = Inl InvalidRangeTime
   \<and> fetch_all db pn vn d ty (PyDate s) (PyDate f) = Inl InvalidRangeTime"
  by (simp add: make_transaction_query_with_filters_def fetch_all_def)

lemma fetch_all_both_dates:
  "fetch_all db pn vn d ty (PyDate s) (PyDate f) = Inr ts \<Longrightarrow> t \<in> set ts \<Longrightarrow>
   s \<le> tx_date t \<and> tx_date t \<le> f"
  by (auto simp: fetch_all_def make_transaction_query_with_filters_def all_ordered_def Let_def
      split: if_splits)

lemma query_start_only_empty_string:
  "make_transaction_query_with_filters db pn vn d ty (PyDate s) EmptyStr = Inr q \<Longrightarrow>
   q t \<Longrightarrow> s \<le> tx_date t"
  by (auto simp: make_transaction_query_with_filters_def Let_def)

lemma query_finish_only_empty_string:
  "make_transaction_query_with_filters db pn vn d ty EmptyStr (PyDate f) = Inr q \<Longrightarrow>
   q t \<Longrightarrow> tx_date t \<le> f"
  by (auto simp: make_transaction_query_with_filters_def Let_def)

lemma fetch_all_finish_only_not_bounded:
  "fetch_all db_one_old [] [] [] None PyNone (PyDate 3) = Inr (transactions db_one_old)"
  by (simp add: fetch_all_def make_transaction_query_with_filters_def all_ordered_def db_one_old_def)

text \<open>
  Claim C5. With both dates the range is inclusive and a start after the finish is
  \<open>InvalidRangeTime\<close> whatever the tables hold (the lemmas above). With the start date alone
  the result is not bounded below: \<open>fetch_all\<close> passes its default \<open>None\<close> for the missing
  finish date, the branch for a start date alone asks for the empty string, and no date
  filter is applied. Here the start date is day 10 and the transaction of day 5 is returned.
\<close>

theorem fetch_all_start_only_not_bounded:
  "fetch_all db_one_old [] [] [] None (PyDate 10) PyNone
   = Inr [\<lparr>tx_id = 1, tx_type = incoming, tx_description = None, tx_date = 5,
          tx_provider_id = None, tx_created_by = 1, products_transaction = []\<rparr>]"
  by (simp add: fetch_all_def make_transaction_query_with_filters_def all_ordered_def db_one_old_def)

section \<open>Pagination\<close>

text \<open>
  Claim C9. A paginated retrieval with a page and a page size of at least 1 whose filters
  match no transaction ends in \<open>ItensNotFound\<close> (no transactions found), not in
  \<open>InvalidPage\<close>: the number of pages is 0, so the test of the page against it is skipped.
\<close>

theorem paginated_no_match_is_not_found:
  assumes "page \<ge> 1" "per_page \<ge> 1"
    and "make_transaction_query_with_filters db pn vn d ty sd fd = Inr q"
    and "filter q (transactions db) = []"
  shows "fetch_all_with_pagination db page per_page pn vn d ty sd fd
         = Inl (ItensNotFound (Message ''No transactions found''))"
  using assms
  by (simp add: fetch_all_with_pagination_def all_ordered_def apply_pagination_def
      calculate_total_pages_def)

theorem paginated_no_match_is_not_found_witness:
  "(3::int) \<ge> 1 \<and> (10::int) \<ge> 1
   \<and> make_transaction_query_with_filters db_one_old [] [] [] (Some outgoing) PyNone PyNone
       = Inr (\<lambda>t. tx_type t = outgoing)
   \<and> filter (\<lambda>t. tx_type t = outgoing) (transactions db_one_old) = []
   \<and> fetch_all_with_pagination db_one_old 3 10 [] [] [] (Some outgoing) PyNone PyNone
       = Inl (ItensNotFound (Message ''No transactions found''))"
proof -
  have a: "(3::int) \<ge> 1" "(10::int) \<ge> 1" by simp_all
  have q: "make_transaction_query_with_filters db_one_old [] [] [] (Some outgoing) PyNone PyNone
       = Inr (\<lambda>t. tx_type t = outgoing)"
    by (simp add: make_transaction_query_with_filters_def)
  have e: "filter (\<lambda>t. tx_type t = outgoing) (transactions db_one_old) = []"
    by (simp add: db_one_old_def)
  from paginated_no_match_is_not_found[OF a q e] a q e show ?thesis by (intro conjI)
qed

section \<open>Batch errors\<close>

text \<open>
  Claim C6. The three batch errors carry every offender. The quantity check lists the
  product id of every line item whose quantity is not strictly positive. The product lookup,
  for distinct requested ids and a table with unique ids, lists exactly the requested ids
  with no row, in the order requested. The stock check lists the product of every pair whose
  requested quantity exceeds the inventory.
\<close>

theorem batch_errors_list_every_offender:
  "check_if_products_payload_is_greater_than_zero h payload =
     (if \<exists>v\<in>set payload. quantity (h v) \<le> 0
      then Inl (InvalidStockQuantity
             (map (\<lambda>v. product_id (h v)) (filter (\<lambda>v. quantity (h v) \<le> 0) payload)))
      else Inr (map (\<lambda>v. product_id (h v)) payload))
   \<and> (distinct ids \<and> distinct (map prod_id (products db)) \<longrightarrow>
        get_products_from_database db ids =
          (if set ids \<subseteq> prod_id ` set (products db) then Inr (query_products db ids)
           else Inl (ItensNotFound (IdsText
                  (filter (\<lambda>i. i \<notin> prod_id ` set (products db)) ids)))))
   \<and> check_if_stock_has_enough_outgoing_quantity h found payload =
     (if \<exists>(p, v)\<in>set (zip found payload). quantity (h v) > inventory p
      then Inl (NotEnoughStockQuantity (map (\<lambda>(p, v). prod_id p)
             (filter (\<lambda>(p, v). quantity (h v) > inventory p) (zip found payload))))
      else Inr ())"
  using greater_than_zero_eq[of h payload] get_products_eq[of ids db]
    enough_stock_eq[of h found payload]
  by (intro conjI impI) simp_all

theorem batch_errors_list_every_offender_witness:
  "check_if_products_payload_is_greater_than_zero (alloc [(1, 0), (2, 3), (5, -1)]) [0, 1, 2]
     = Inl (InvalidStockQuantity [1, 5])
   \<and> distinct [7, 1, 5 :: int] \<and> distinct (map prod_id (products db_stock))
   \<and> get_products_from_database db_stock [7, 1, 5] = Inl (ItensNotFound (IdsText [7, 5]))
   \<and> check_if_stock_has_enough_outgoing_quantity (alloc [(1, 11), (2, 5)]) (products db_stock) [0, 1]
     = Inl (NotEnoughStockQuantity [1, 2])"
proof -
  let ?h = "alloc [(1, 0), (2, 3), (5, -1)]" and ?g = "alloc [(1, 11), (2, 5)]"
  note t = batch_errors_list_every_offender[where h = ?h and payload = "[0, 1, 2]"
      and ids = "[7, 1, 5]" and db = db_stock and found = "products db_stock"]
  have d: "distinct [7, 1, 5 :: int]" "distinct (map prod_id (products db_stock))"
    by (simp_all add: db_stock_def)
  from t have
    "check_if_products_payload_is_greater_than_zero ?h [0, 1, 2] = Inl (InvalidStockQuantity [1, 5])"
    by (simp add: alloc_def)
  moreover from t d have
    "get_products_from_database db_stock [7, 1, 5] = Inl (ItensNotFound (IdsText [7, 5]))"
    by (simp add: db_stock_def)
  moreover from batch_errors_list_every_offender[where h = ?g and payload = "[0, 1]"
      and ids = "[]" and db = db_stock and found = "products db_stock"]
  have "check_if_stock_has_enough_outgoing_quantity ?g (products db_stock) [0, 1]
     = Inl (NotEnoughStockQuantity [1, 2])"
    by (simp add: db_stock_def alloc_def)
  ultimately show ?thesis using d by (intro conjI)
qed

text \<open>
  Inside \<open>create\<close> the stock check pairs every product found with its own line item, so
  its error lists the product id of every line item of the normalized batch whose merged
  quantity exceeds the inventory of its product.
\<close>

lemma map_filter_zip_aligned:
  "length ps = length vs \<Longrightarrow>
   (\<forall>(p, v)\<in>set (zip ps vs). f p = g v \<and> (P p v \<longleftrightarrow> Q v)) \<Longrightarrow>
   map (\<lambda>(p, v). f p) (filter (\<lambda>(p, v). P p v) (zip ps vs)) = map g (filter Q vs)"
  by (induction ps vs rule: list_induct2) auto

lemma length_eq_Nil: "length xs = length ys \<Longrightarrow> (xs = [] \<longleftrightarrow> ys = [])"
  by (cases xs; cases ys) simp_all

lemma stock_check_in_create:
  assumes pk: "distinct (map prod_id (products db))"
    and n: "sort_by_id_check_and_sum_duplicates h payload = Inr (h', out)"
    and g: "get_products_from_database db (pids h' out) = Inr found"
  shows "check_if_stock_has_enough_outgoing_quantity h' found out =
     (let short = filter (\<lambda>v. \<exists>inv. inventory_of db (product_id (h' v)) = Some inv
                                  \<and> inv < quantity (h' v)) out
      in if short = [] then Inr () else Inl (NotEnoughStockQuantity (pids h' short)))"
proof -
  note l = lookup_step[OF pk n g]
  have len: "length found = length out" using l(1) by (metis length_map)
  have al: "\<forall>(p, v)\<in>set (zip found out). prod_id p = product_id (h' v) \<and>
      (inventory p < quantity (h' v) \<longleftrightarrow>
       (\<exists>inv. inventory_of db (product_id (h' v)) = Some inv \<and> inv < quantity (h' v)))"
  proof (clarify)
    fix p v assume pv: "(p, v) \<in> set (zip found out)"
    have e: "prod_id p = product_id (h' v)" using zip_map_eq[OF l(1) pv] .
    have "p \<in> set (products db)" using pv l(2) by (auto dest: set_zip_leftD)
    from inventory_of_row[OF pk this] e
    have "inventory_of db (product_id (h' v)) = Some (inventory p)" by simp
    with e show "prod_id p = product_id (h' v) \<and>
      (inventory p < quantity (h' v) \<longleftrightarrow>
       (\<exists>inv. inventory_of db (product_id (h' v)) = Some inv \<and> inv < quantity (h' v)))"
      by simp
  qed
  have m: "map (\<lambda>(p, v). prod_id p) (filter (\<lambda>(p, v). inventory p < quantity (h' v)) (zip found out))
      = map (\<lambda>v. product_id (h' v))
          (filter (\<lambda>v. \<exists>inv. inventory_of db (product_id (h' v)) = Some inv \<and> inv < quantity (h' v)) out)"
    using map_filter_zip_aligned[OF len, where f = prod_id and g = "\<lambda>v. product_id (h' v)"
        and P = "\<lambda>p v. inventory p < quantity (h' v)"
        and Q = "\<lambda>v. \<exists>inv. inventory_of db (product_id (h' v)) = Some inv \<and> inv < quantity (h' v)"] al
    by blast
  let ?F = "filter (\<lambda>(p, v). inventory p < quantity (h' v)) (zip found out)"
  let ?S = "filter (\<lambda>v. \<exists>inv. inventory_of db (product_id (h' v)) = Some inv
                                  \<and> inv < quantity (h' v)) out"
  have ex: "(\<exists>(p, v)\<in>set (zip found out). inventory p < quantity (h' v)) \<longleftrightarrow> ?F \<noteq> []"
    by (auto simp: filter_empty_conv)
  have "length (map (\<lambda>(p, v). prod_id p) ?F) = length (map (\<lambda>v. product_id (h' v)) ?S)"
    by (simp only: m)
  then have "length ?F = length ?S" by (simp only: length_map)
  then have fs: "?F = [] \<longleftrightarrow> ?S = []" by (rule length_eq_Nil)
  have c: "check_if_stock_has_enough_outgoing_quantity h' found out =
      (if ?F \<noteq> [] then Inl (NotEnoughStockQuantity (map (\<lambda>(p, v). prod_id p) ?F)) else Inr ())"
    by (simp only: enough_stock_eq ex)
  show ?thesis
  proof (cases "?F = []")
    case True
    with fs c show ?thesis by (simp add: Let_def)
  next
    case False
    with fs have "?S \<noteq> []" by simp
    with False c m show ?thesis by (simp add: Let_def pids_def)
  qed
qed

section \<open>Creating transactions\<close>

lemmas run_defs = create_def from_orm_def request_def alloc_def
  sort_by_id_check_and_sum_duplicates_def check_provider_existence_def getattr_name_def
  check_if_products_payload_is_greater_than_zero_def get_products_from_database_def
  query_products_def
  check_if_stock_has_enough_outgoing_quantity_def insert_transaction_def next_transaction_id_def
  update_products_inventory_def update_products_inventory_outgoing_def bulk_update_mappings_def
  Let_def


lemma run_sale:
  "create NoFault db_stock (alloc [(2, 4), (1, 10)]) 9 (request outgoing None [0, 1])
   = ((db_sold_out, alloc [(2, 4), (1, 10)]), Inr tx_sale)"
  by (simp add: run_defs db_stock_def db_sold_out_def tx_sale_def)

lemma normalize_sale:
  "sort_by_id_check_and_sum_duplicates (alloc [(2, 4), (1, 10)]) [0, 1]
   = Inr (alloc [(2, 4), (1, 10)], [1, 0])"
  by (simp add: sort_by_id_check_and_sum_duplicates_def alloc_def)

lemma run_update_fails:
  "create UpdateFails db_stock (alloc [(1, 5)]) 9 (request incoming (Some 1) [0])
   = ((db_stock\<lparr>transactions := [tx_single]\<rparr>, alloc [(1, 5)]), Inl StorageError)"
  by (simp add: run_defs db_stock_def tx_single_def)

text \<open>
  Claim C1. The insert of the transaction and the update of the inventories are not one
  atomic unit. When the inventory update fails after a committed insert, the create fails
  and the transaction record stays in the table: here the table of transactions was empty
  and holds the new record after the failed create.
\<close>

theorem create_commits_insert_before_update:
  "snd (create UpdateFails db_stock (alloc [(1, 5)]) 9 (request incoming (Some 1) [0]))
     = Inl StorageError
   \<and> transactions db_stock = []
   \<and> transactions (fst (fst (create UpdateFails db_stock (alloc [(1, 5)]) 9
                               (request incoming (Some 1) [0])))) = [tx_single]"
  by (simp add: run_update_fails) (simp add: db_stock_def)

lemma run_single_restock:
  "create NoFault db_stock (alloc [(1, 5)]) 9 (request incoming (Some 1) [0])
   = ((db_single_restock, alloc [(1, 5)]), Inr tx_single)"
  by (simp add: run_defs db_stock_def db_single_restock_def tx_single_def)

lemma run_short_stock:
  "create NoFault db_stock (alloc [(1, 20)]) 9 (request outgoing None [0])
   = ((db_stock, alloc [(1, 20)]), Inl (NotEnoughStockQuantity [1]))"
  by (simp add: run_defs db_stock_def)


text \<open>
  Claim C1, as the code has it. The insert of the transaction and the update of the
  inventories are committed one after the other and nothing is rolled back. Take a create
  that succeeds when no step raises. If the insert raises, the tables are as before. If the
  inventory update raises, the tables are as before except that the table of transactions
  holds the new record. If building the response raises, after both commits, the tables are
  those of the successful create: the record and the inventory changes both stay. A create
  refused by validation leaves the tables as they were, whatever else would have failed.
\<close>

theorem create_failure_effects:
  "(create NoFault db h u t = ((db2, h'), Inr tr) \<longrightarrow>
       create InsertFails db h u t = ((db, h'), Inl StorageError)
     \<and> create UpdateFails db h u t
           = ((db\<lparr>transactions := transactions db @ [tr]\<rparr>, h'), Inl StorageError)
     \<and> create ResponseFails db h u t = ((db2, h'), Inl ResponseError)
     \<and> transactions db2 = transactions db @ [tr])
   \<and> (create NoFault db h u t = ((db1, h1), Inl e) \<longrightarrow>
       db1 = db \<and> create f db h u t = ((db, h1), Inl e))"
proof (intro conjI impI)
  assume a: "create NoFault db h u t = ((db2, h'), Inr tr)"
  show "create InsertFails db h u t = ((db, h'), Inl StorageError)"
    using a by (rule create_faults_after_validation(1))
  show "create UpdateFails db h u t
           = ((db\<lparr>transactions := transactions db @ [tr]\<rparr>, h'), Inl StorageError)"
    using a by (rule create_faults_after_validation(2))
  show "create ResponseFails db h u t = ((db2, h'), Inl ResponseError)"
    using a by (rule create_faults_after_validation(3))
  show "transactions db2 = transactions db @ [tr]"
    using a by (rule create_faults_after_validation(4))
next
  assume b: "create NoFault db h u t = ((db1, h1), Inl e)"
  show "db1 = db" using b by (rule create_validation_failure(1))
  show "create f db h u t = ((db, h1), Inl e)" using b by (rule create_validation_failure(2))
qed

theorem create_failure_effects_witness:
  "create NoFault db_stock (alloc [(1, 5)]) 9 (request incoming (Some 1) [0])
     = ((db_single_restock, alloc [(1, 5)]), Inr tx_single)
   \<and> create InsertFails db_stock (alloc [(1, 5)]) 9 (request incoming (Some 1) [0])
     = ((db_stock, alloc [(1, 5)]), Inl StorageError)
   \<and> create UpdateFails db_stock (alloc [(1, 5)]) 9 (request incoming (Some 1) [0])
     = ((db_stock\<lparr>transactions := transactions db_stock @ [tx_single]\<rparr>, alloc [(1, 5)]),
        Inl StorageError)
   \<and> create ResponseFails db_stock (alloc [(1, 5)]) 9 (request incoming (Some 1) [0])
     = ((db_single_restock, alloc [(1, 5)]), Inl ResponseError)
   \<and> inventory_of db_stock 1 = Some 10 \<and> inventory_of db_single_restock 1 = Some 15
   \<and> create NoFault db_stock (alloc [(1, 20)]) 9 (request outgoing None [0])
     = ((db_stock, alloc [(1, 20)]), Inl (NotEnoughStockQuantity [1]))
   \<and> create UpdateFails db_stock (alloc [(1, 20)]) 9 (request outgoing None [0])
     = ((db_stock, alloc [(1, 20)]), Inl (NotEnoughStockQuantity [1]))"
proof -
  note a = create_failure_effects[where db = db_stock and h = "alloc [(1, 5)]" and u = 9
      and t = "request incoming (Some 1) [0]" and ?db2.0 = db_single_restock
      and h' = "alloc [(1, 5)]" and tr = tx_single]
  from a have a1: "create NoFault db_stock (alloc [(1, 5)]) 9 (request incoming (Some 1) [0])
        = ((db_single_restock, alloc [(1, 5)]), Inr tx_single) \<longrightarrow>
       create InsertFails db_stock (alloc [(1, 5)]) 9 (request incoming (Some 1) [0])
        = ((db_stock, alloc [(1, 5)]), Inl StorageError)
     \<and> create UpdateFails db_stock (alloc [(1, 5)]) 9 (request incoming (Some 1) [0])
           = ((db_stock\<lparr>transactions := transactions db_stock @ [tx_single]\<rparr>, alloc [(1, 5)]),
              Inl StorageError)
     \<and> create ResponseFails db_stock (alloc [(1, 5)]) 9 (request incoming (Some 1) [0])
        = ((db_single_restock, alloc [(1, 5)]), Inl ResponseError)
     \<and> transactions db_single_restock = transactions db_stock @ [tx_single]"
    by (rule conjunct1)
  note r = mp[OF a1 run_single_restock]
  note b = create_failure_effects[where db = db_stock and h = "alloc [(1, 20)]" and u = 9
      and t = "request outgoing None [0]" and ?db1.0 = db_stock
      and ?h1.0 = "alloc [(1, 20)]" and e = "NotEnoughStockQuantity [1]" and f = UpdateFails]
  from b have b1: "create NoFault db_stock (alloc [(1, 20)]) 9 (request outgoing None [0])
        = ((db_stock, alloc [(1, 20)]), Inl (NotEnoughStockQuantity [1])) \<longrightarrow>
       db_stock = db_stock \<and> create UpdateFails db_stock (alloc [(1, 20)]) 9 (request outgoing None [0])
        = ((db_stock, alloc [(1, 20)]), Inl (NotEnoughStockQuantity [1]))"
    by (rule conjunct2)
  note v = mp[OF b1 run_short_stock]
  have i: "inventory_of db_stock 1 = Some 10" "inventory_of db_single_restock 1 = Some 15"
    by (simp_all add: inventory_of_def db_stock_def db_single_restock_def)
  from run_single_restock r[THEN conjunct1] r[THEN conjunct2, THEN conjunct1]
    r[THEN conjunct2, THEN conjunct2, THEN conjunct1] i run_short_stock v[THEN conjunct2]
  show ?thesis by (intro conjI)
qed



text \<open>
  Claim C10. Equality of merged quantity and inventory alone does not make an outgoing
  create succeed: a product with inventory 0 and a requested quantity of 0 is rejected by the
  quantity check with \<open>InvalidStockQuantity\<close>, before the stock check is reached.
\<close>

theorem outgoing_zero_stock_rejected:
  "inventory_of db_empty_shelf 1 = Some 0
   \<and> sort_by_id_check_and_sum_duplicates (alloc [(1, 0)]) [0] = Inr (alloc [(1, 0)], [0])
   \<and> quantity (alloc [(1, 0)] 0) = 0
   \<and> create NoFault db_empty_shelf (alloc [(1, 0)]) 9 (request outgoing None [0])
      = ((db_empty_shelf, alloc [(1, 0)]), Inl (InvalidStockQuantity [1]))"
  by (simp add: run_defs db_empty_shelf_def inventory_of_def)

text \<open>
  Claim C10, as the code has it. An outgoing create with a batch that is not empty, on a
  catalog with unique product ids and without a storage failure, in which every merged
  quantity is strictly positive and equals the current inventory of its product, passes the
  stock check (only a quantity above the inventory is refused), succeeds and leaves each of
  these products with inventory 0.
\<close>

theorem outgoing_exact_stock_succeeds:
  assumes "distinct (map prod_id (products db))"
    and "req_type t = outgoing"
    and "req_products t \<noteq> []"
    and "sort_by_id_check_and_sum_duplicates h (req_products t) = Inr (h', out)"
    and "\<forall>r\<in>set out. 0 < quantity (h' r)
               \<and> inventory_of db (product_id (h' r)) = Some (quantity (h' r))"
  shows "\<exists>db' tr. create NoFault db h u t = ((db', h'), Inr tr)
           \<and> (\<forall>r\<in>set out. inventory_of db' (product_id (h' r)) = Some 0)"
  using assms by (rule outgoing_exact_stock)

theorem outgoing_exact_stock_succeeds_witness:
  "distinct (map prod_id (products db_stock))
   \<and> req_type (request outgoing None [0, 1]) = outgoing
   \<and> req_products (request outgoing None [0, 1]) \<noteq> []
   \<and> sort_by_id_check_and_sum_duplicates (alloc [(2, 4), (1, 10)])
        (req_products (request outgoing None [0, 1])) = Inr (alloc [(2, 4), (1, 10)], [1, 0])
   \<and> quantity (alloc [(2, 4), (1, 10)] 1) = 10 \<and> inventory_of db_stock 1 = Some 10
   \<and> quantity (alloc [(2, 4), (1, 10)] 0) = 4 \<and> inventory_of db_stock 2 = Some 4
   \<and> (\<exists>db' tr. create NoFault db_stock (alloc [(2, 4), (1, 10)]) 9 (request outgoing None [0, 1])
          = ((db', alloc [(2, 4), (1, 10)]), Inr tr)
        \<and> inventory_of db' 1 = Some 0 \<and> inventory_of db' 2 = Some 0)"
proof -
  let ?h = "alloc [(2, 4), (1, 10)]" and ?t = "request outgoing None [0, 1]"
  have pk: "distinct (map prod_id (products db_stock))" by (simp add: db_stock_def)
  have og: "req_type ?t = outgoing" and ne: "req_products ?t \<noteq> []" by (simp_all add: request_def)
  have n: "sort_by_id_check_and_sum_duplicates ?h (req_products ?t) = Inr (?h, [1, 0])"
    using normalize_sale by (simp add: request_def)
  have q: "quantity (?h 1) = 10" "quantity (?h 0) = 4" "product_id (?h 1) = 1" "product_id (?h 0) = 2"
    by (simp_all add: alloc_def)
  have i: "inventory_of db_stock 1 = Some 10" "inventory_of db_stock 2 = Some 4"
    by (simp_all add: inventory_of_def db_stock_def)
  have ex: "\<forall>r\<in>set [1, 0]. 0 < quantity (?h r)
          \<and> inventory_of db_stock (product_id (?h r)) = Some (quantity (?h r))"
    using q i by simp
  from outgoing_exact_stock_succeeds[OF pk og ne n ex, of 9] obtain db' tr where
    c: "create NoFault db_stock ?h 9 ?t = ((db', ?h), Inr tr)"
    and z: "\<forall>r\<in>set [1, 0]. inventory_of db' (product_id (?h r)) = Some 0" by blast
  from z q have "inventory_of db' 1 = Some 0" "inventory_of db' 2 = Some 0" by simp_all
  with c have e: "\<exists>db' tr. create NoFault db_stock ?h 9 ?t = ((db', ?h), Inr tr)
        \<and> inventory_of db' 1 = Some 0 \<and> inventory_of db' 2 = Some 0" by blast
  from pk og ne n q(1) i(1) q(2) i(2) e show ?thesis by (intro conjI)
qed

end
